theory Spec2Isabelle
  imports Complex_Main "HOL-Library.AList"
begin

section \<open>Python values, floats and exceptions\<close>

text \<open>
  A Python float is a finite double, an infinity or NaN. Finite doubles are embedded in
  the reals: the program only compares them, takes the larger of two, subtracts two clock
  readings and multiplies a number of minutes by 60. Comparisons and \<open>max\<close> are
  exact on doubles; the rounding of the subtraction and of the product is not modelled.
\<close>

datatype pyfloat = Finite real | PosInf | NegInf | NaN

text \<open>The values \<open>json.load\<close> and a Tk entry can hand to the program.\<close>

datatype pyval =
    PNone
  | PBool bool
  | PInt int
  | PFloat pyfloat
  | PStr string
  | PList "pyval list"
  | PDict "(string \<times> pyval) list"

datatype exc =
    ValueError
  | TypeError
  | OverflowError
  | AttributeError
  | FileNotFoundError

text \<open>\<open>x <= c\<close> and \<open>x > c\<close> for a float \<open>x\<close> and a finite constant \<open>c\<close>: every
  comparison with NaN is false.\<close>

fun pf_le :: "pyfloat \<Rightarrow> real \<Rightarrow> bool" where
  "pf_le (Finite v) c = (v \<le> c)"
| "pf_le NegInf c = True"
| "pf_le PosInf c = False"
| "pf_le NaN c = False"

fun pf_gt :: "pyfloat \<Rightarrow> real \<Rightarrow> bool" where
  "pf_gt (Finite v) c = (v > c)"
| "pf_gt PosInf c = True"
| "pf_gt NegInf c = False"
| "pf_gt NaN c = False"

text \<open>The builtin \<open>max(c, x)\<close> keeps its first argument unless \<open>x > c\<close>.\<close>

definition py_max :: "real \<Rightarrow> pyfloat \<Rightarrow> pyfloat" where
  "py_max c x = (if pf_gt x c then x else Finite c)"

text \<open>The literal \<open>0.1\<close>: the double nearest to one tenth.\<close>

definition py_0_1 :: real where
  "py_0_1 = 3602879701896397 / 36028797018963968"

text \<open>
  The builtin \<open>float(x)\<close>. The reading of a string is Python's own grammar
  and is a parameter \<open>str_to_float\<close> (\<open>None\<close> where \<open>float\<close> raises ValueError). An
  integer that rounds beyond the largest double raises OverflowError; below that bound
  the integer stands for its double (exact up to \<open>2 ^ 53\<close>).
\<close>

fun py_float :: "(string \<Rightarrow> pyfloat option) \<Rightarrow> pyval \<Rightarrow> exc + pyfloat" where
  "py_float p PNone = Inl TypeError"
| "py_float p (PBool b) = Inr (Finite (if b then 1 else 0))"
| "py_float p (PInt i) =
     (if \<bar>i\<bar> \<ge> 2 ^ 1024 - 2 ^ 970 then Inl OverflowError else Inr (Finite (of_int i)))"
| "py_float p (PFloat f) = Inr f"
| "py_float p (PStr s) = (case p s of None \<Rightarrow> Inl ValueError | Some f \<Rightarrow> Inr f)"
| "py_float p (PList xs) = Inl TypeError"
| "py_float p (PDict d) = Inl TypeError"

section \<open>Settings store\<close>

text \<open>
  \<open>validate_interval\<close>: the body runs inside \<open>try\<close>; ValueError and TypeError,
  from \<open>float\<close> or from the two range checks, are re-raised as ValueError, any other
  exception passes through.
\<close>

definition validate_interval :: "(string \<Rightarrow> pyfloat option) \<Rightarrow> pyval \<Rightarrow> exc + pyfloat" where
  "validate_interval p interval_min =
     (case py_float p interval_min of
        Inl e \<Rightarrow> (if e = ValueError \<or> e = TypeError then Inl ValueError else Inl e)
      | Inr v \<Rightarrow>
          if pf_le v 0 then Inl ValueError
          else if pf_gt v 1440 then Inl ValueError
          else Inr (py_max py_0_1 v))"

text \<open>A dict is an association list; \<open>d.get(k, dflt)\<close> and \<open>d[k] = v\<close>.\<close>

type_synonym config = "(string \<times> pyval) list"

definition dict_get :: "config \<Rightarrow> string \<Rightarrow> pyval \<Rightarrow> pyval" where
  "dict_get d k dflt = (case map_of d k of None \<Rightarrow> dflt | Some v \<Rightarrow> v)"

definition dict_set :: "string \<Rightarrow> pyval \<Rightarrow> config \<Rightarrow> config" where
  "dict_set k v d = AList.update k v d"

definition default_config :: config where
  "default_config =
     [(''interval_min'', PInt 60),
      (''icon_path'', PStr ''icon.ico''),
      (''log_file'', PStr ''stretch_reminder.log''),
      (''auto_start'', PBool False),
      (''minimize_to_tray'', PBool True)]"

text \<open>
  The environment of the program: how Python reads a float from a string, how
  \<open>json.load\<close> reads a text (\<open>None\<close>: JSONDecodeError, or a decoding error, both
  caught as ValueError), the text \<open>json.dump\<close> writes, whether the configuration file
  can be opened for writing, what \<open>get_icon_abs_path\<close> finds (\<open>None\<close>: it raises
  FileNotFoundError), and the path of the executable.
\<close>

record env =
  str_to_float :: "string \<Rightarrow> pyfloat option"
  json_loads :: "string \<Rightarrow> pyval option"
  json_dumps :: "config \<Rightarrow> string"
  write_ok :: bool
  icon_abs_path :: "string option"
  exe_path :: string

text \<open>
  \<open>load_config\<close> on the content of the configuration file (\<open>None\<close>: the file does
  not exist). It returns the file afterwards and the record, or the exception that
  leaves the function.
\<close>

definition load_config :: "env \<Rightarrow> string option \<Rightarrow> string option \<times> (exc + config)" where
  "load_config e file =
     (case file of
        None \<Rightarrow>
          (if write_ok e then (Some (json_dumps e default_config), Inr default_config)
           else (None, Inr default_config))
      | Some content \<Rightarrow>
          (case json_loads e content of
             None \<Rightarrow> (file, Inr default_config)
           | Some (PDict config) \<Rightarrow>
               (case validate_interval (str_to_float e) (dict_get config ''interval_min'' (PInt 60)) of
                  Inl ex \<Rightarrow> (if ex = ValueError then (file, Inr default_config) else (file, Inl ex))
                | Inr v \<Rightarrow>
                    (let config = dict_set ''interval_min'' (PFloat v) config;
                         config = dict_set ''icon_path'' (dict_get config ''icon_path'' (PStr ''icon.ico'')) config;
                         config = dict_set ''log_file'' (dict_get config ''log_file'' (PStr ''stretch_reminder.log'')) config;
                         config = dict_set ''auto_start'' (dict_get config ''auto_start'' (PBool False)) config;
                         config = dict_set ''minimize_to_tray'' (dict_get config ''minimize_to_tray'' (PBool True)) config
                     in (file, Inr config)))
           | Some _ \<Rightarrow> (file, Inl AttributeError)))"


section \<open>Auto-start registrar\<close>

definition VERSION :: string where
  "VERSION = ''1.0.0''"

definition APP_NAME :: string where
  "APP_NAME = ''Stretch Reminder''"

text \<open>The description stored beside the icon path and the version (Korean in the source).\<close>

definition INFO_DESCRIPTION :: string where
  "INFO_DESCRIPTION = ''stretching reminder program''"

text \<open>
  The part of the registry the program touches: whether the per-user Run key can be
  opened, the value named \<open>APP_NAME\<close> under it, and the values of the
  \<open>StretchReminderInfo\<close> subkey (\<open>None\<close>: no such key). A key that opens accepts every
  read, write and delete.
\<close>

record registry =
  run_key :: bool
  run_value :: "string option"
  info_key :: "(string \<times> string) list option"

definition quote_if_spaced :: "string \<Rightarrow> string" where
  "quote_if_spaced p = (if CHR '' '' \<in> set p then [CHR 0x22] @ p @ [CHR 0x22] else p)"

definition set_info_values :: "string \<Rightarrow> (string \<times> string) list option \<Rightarrow> (string \<times> string) list option" where
  "set_info_values icon_path k =
     Some (AList.update ''Description'' INFO_DESCRIPTION
            (AList.update ''Version'' VERSION
              (AList.update ''IconPath'' icon_path (case k of None \<Rightarrow> [] | Some vs \<Rightarrow> vs))))"

text \<open>
  \<open>set_auto_start\<close>: every exception ends in \<open>return False\<close>; deleting a value
  that is not there is caught inside and still ends in \<open>return True\<close>.
\<close>

definition set_auto_start :: "env \<Rightarrow> bool \<Rightarrow> registry \<Rightarrow> registry \<times> bool" where
  "set_auto_start e enable r =
     (if \<not> run_key r then (r, False)
      else if enable then
        (case icon_abs_path e of
           None \<Rightarrow> (r, False)
         | Some icon_path \<Rightarrow>
             (r\<lparr>run_value := Some (quote_if_spaced (exe_path e)),
                info_key := set_info_values icon_path (info_key r)\<rparr>, True))
      else
        (case run_value r of
           None \<Rightarrow> (r, True)
         | Some _ \<Rightarrow> (r\<lparr>run_value := None, info_key := None\<rparr>, True)))"

definition get_auto_start_status :: "registry \<Rightarrow> bool" where
  "get_auto_start_status r = (run_key r \<and> run_value r \<noteq> None)"

section \<open>Application state\<close>

text \<open>
  A \<open>threading.Timer\<close> started at time \<open>t\<close> with interval \<open>d\<close> is due at
  \<open>t + d\<close>. It is armed until it is cancelled or its callback starts;
  \<open>cancel()\<close> after the callback has started changes nothing.
\<close>

datatype timer_status = Armed | Cancelled | Fired

record timer_obj =
  due :: real
  status :: timer_status

text \<open>
  Where a background thread stands. The callback of a timer runs
  \<open>notify_and_reschedule\<close>: it is about to call \<open>send_notification\<close>
  (\<open>Notifying\<close>), then about to test \<open>running\<close> and start the thread for
  \<open>delayed_reschedule\<close> (\<open>Checking\<close>); that thread is inside
  \<open>time.sleep(0.1)\<close> until the given time (\<open>Sleeping\<close>), then about to test
  \<open>running\<close> again (\<open>Rechecking\<close>), then past the test and about to call
  \<open>schedule_notification\<close> (\<open>Scheduling\<close>). The thread the apply handler starts
  for \<open>start_new_timer\<close> begins at \<open>Scheduling\<close>. No lock is taken anywhere, so
  another thread can run between any two of these points.
\<close>

datatype pc = Notifying | Checking | Sleeping real | Rechecking | Scheduling | Done

text \<open>What the user sees in a message box.\<close>

datatype message =
    Info_auto_start bool
  | Error_auto_start
  | Info_applied pyfloat
  | Error_invalid
  | Error_apply

text \<open>
  The globals of the module after start-up, the objects they refer to and what the
  program has shown so far. \<open>timers\<close> holds every timer object ever started and
  \<open>timer\<close> is the index of the one the global of that name refers to; \<open>windows\<close>
  holds every settings window ever created, \<open>True\<close> until it is destroyed;
  \<open>threads\<close> holds every background thread ever started and where it stands;
  \<open>sent\<close> the times of the calls of
  \<open>send_notification\<close>; \<open>lifted\<close> the windows raised and focused.
\<close>

record app_state =
  clock :: real
  timer :: "nat option"
  timers :: "timer_obj list"
  interval_sec :: real
  next_run_time :: "real option"
  running :: bool
  threads :: "pc list"
  sent :: "real list"
  settings_window :: "nat option"
  windows :: "bool list"
  lifted :: "nat list"
  root_window :: bool
  tray_icon :: bool
  command_queue :: "string list"
  config_file :: "string option"
  reg :: registry
  messages :: "message list"

section \<open>Reminder scheduler\<close>

definition send_notification :: "app_state \<Rightarrow> app_state" where
  "send_notification s = s\<lparr>sent := sent s @ [clock s]\<rparr>"

definition schedule_notification :: "app_state \<Rightarrow> app_state" where
  "schedule_notification s =
     (let current_interval = interval_sec s
      in s\<lparr>next_run_time := Some (clock s + current_interval),
            timers := timers s @ [\<lparr>due = clock s + current_interval, status = Armed\<rparr>],
            timer := Some (length (timers s))\<rparr>)"

text \<open>
  One statement of \<open>notify_and_reschedule\<close>, \<open>delayed_reschedule\<close> or
  \<open>start_new_timer\<close>, for a thread at the given point: where the thread stands
  afterwards and the state it leaves. A sleeping thread wakes no sooner than its
  wake-up time.
\<close>

fun advance :: "pc \<Rightarrow> app_state \<Rightarrow> pc \<times> app_state" where
  "advance Notifying s = (Checking, send_notification s)"
| "advance Checking s = (if running s then Sleeping (clock s + 1 / 10) else Done, s)"
| "advance (Sleeping t) s = (if t \<le> clock s then Rechecking else Sleeping t, s)"
| "advance Rechecking s = (if running s then Scheduling else Done, s)"
| "advance Scheduling s = (Done, schedule_notification s)"
| "advance Done s = (Done, s)"

definition thread_step :: "nat \<Rightarrow> app_state \<Rightarrow> app_state" where
  "thread_step j s =
     (if j < length (threads s)
      then (case advance (threads s ! j) s of (p, s') \<Rightarrow> s'\<lparr>threads := (threads s')[j := p]\<rparr>)
      else s)"

text \<open>The background threads that have not finished.\<close>

definition busy :: "app_state \<Rightarrow> nat" where
  "busy s = length (filter (\<lambda>p. p \<noteq> Done) (threads s))"

text \<open>\<open>timer.cancel()\<close> on the timer object with index \<open>i\<close>.\<close>

definition cancel :: "nat \<Rightarrow> timer_obj list \<Rightarrow> timer_obj list" where
  "cancel i ts =
     (if i < length ts \<and> status (ts ! i) = Armed then ts[i := (ts ! i)\<lparr>status := Cancelled\<rparr>]
      else ts)"

definition can_fire :: "nat \<Rightarrow> app_state \<Rightarrow> bool" where
  "can_fire i s = (i < length (timers s) \<and> status (timers s ! i) = Armed \<and> due (timers s ! i) \<le> clock s)"

text \<open>The indices of the timers that are armed.\<close>

definition armed_in :: "timer_obj list \<Rightarrow> nat list" where
  "armed_in ts = filter (\<lambda>i. status (ts ! i) = Armed) [0 ..< length ts]"

definition armed :: "app_state \<Rightarrow> nat list" where
  "armed s = armed_in (timers s)"

section \<open>Settings dialog\<close>

text \<open>A settings window exists while the root window does and it has not been destroyed.\<close>

definition winfo_exists :: "nat \<Rightarrow> app_state \<Rightarrow> bool" where
  "winfo_exists w s = (root_window s \<and> w < length (windows s) \<and> windows s ! w)"

definition existing_windows :: "app_state \<Rightarrow> nat list" where
  "existing_windows s = filter (\<lambda>w. winfo_exists w s) [0 ..< length (windows s)]"

text \<open>
  What Tk does during one call of \<open>create_settings_window\<close>: nothing raises, or
  \<open>lift\<close>/\<open>focus_force\<close> raises, or \<open>tk.Toplevel\<close> raises, or a call after the
  window has been created raises.
\<close>

datatype tk_result = Tk_ok | Lift_raises | Toplevel_raises | Setup_raises

definition new_window :: "tk_result \<Rightarrow> app_state \<Rightarrow> app_state" where
  "new_window tk s =
     (if tk = Toplevel_raises then s\<lparr>settings_window := None\<rparr>
      else if tk = Setup_raises then s\<lparr>windows := windows s @ [True], settings_window := None\<rparr>
      else s\<lparr>windows := windows s @ [True], settings_window := Some (length (windows s))\<rparr>)"

definition create_settings_window :: "tk_result \<Rightarrow> app_state \<Rightarrow> app_state" where
  "create_settings_window tk s =
     (case settings_window s of
        None \<Rightarrow> new_window tk s
      | Some w \<Rightarrow>
          if winfo_exists w s then
            (if tk = Lift_raises then new_window tk (s\<lparr>settings_window := None\<rparr>)
             else s\<lparr>lifted := lifted s @ [w]\<rparr>)
          else new_window tk s)"

definition on_closing :: "nat \<Rightarrow> app_state \<Rightarrow> app_state" where
  "on_closing w s = s\<lparr>settings_window := None, windows := (windows s)[w := False]\<rparr>"

text \<open>\<open>int(x)\<close> on a float truncates towards zero.\<close>

definition py_int :: "real \<Rightarrow> int" where
  "py_int x = (if x \<ge> 0 then \<lfloor>x\<rfloor> else \<lceil>x\<rceil>)"

text \<open>
  \<open>update_countdown\<close>: the whole seconds put on the label, and the label's minutes and
  seconds; \<open>None\<close> when \<open>next_run_time\<close> is unset (or zero) and the label keeps its text.
\<close>

definition remaining_seconds :: "app_state \<Rightarrow> int option" where
  "remaining_seconds s =
     (case next_run_time s of
        None \<Rightarrow> None
      | Some t \<Rightarrow>
          if t = 0 then None
          else (let remaining = py_int (t - clock s)
                in Some (if remaining < 0 then 0 else remaining)))"

definition update_countdown :: "app_state \<Rightarrow> (int \<times> int) option" where
  "update_countdown s = map_option (\<lambda>remaining. (remaining div 60, remaining mod 60)) (remaining_seconds s)"

text \<open>
  Saving the configuration: \<open>open(path, "w")\<close> empties the file, \<open>json.dump\<close> and the
  close put the text there. \<open>crash_point\<close> says how far a save got when the process
  died.
\<close>

datatype crash_point = Before_open | After_open | During_write nat | Completed

fun save_config :: "env \<Rightarrow> config \<Rightarrow> crash_point \<Rightarrow> string option \<Rightarrow> string option" where
  "save_config e cfg Before_open file = file"
| "save_config e cfg After_open file = Some []"
| "save_config e cfg (During_write n) file = Some (take n (json_dumps e cfg))"
| "save_config e cfg Completed file = Some (json_dumps e cfg)"

text \<open>
  \<open>apply_settings\<close>, the handler of the apply button. The thread it starts for
  \<open>start_new_timer\<close> runs \<open>schedule_notification\<close> at once. Every exception ends
  in an error box and leaves the timers alone. \<open>validate_interval\<close> returns finite
  floats only, so the last case is never taken.
\<close>

definition reset_timer :: "real \<Rightarrow> app_state \<Rightarrow> app_state" where
  "reset_timer new_min s =
     (let s = (case timer s of None \<Rightarrow> s | Some i \<Rightarrow> s\<lparr>timers := cancel i (timers s)\<rparr>);
          s = s\<lparr>interval_sec := new_min * 60\<rparr>
      in schedule_notification s)"

definition apply_settings :: "env \<Rightarrow> string \<Rightarrow> bool \<Rightarrow> app_state \<Rightarrow> app_state" where
  "apply_settings e raw auto_start s =
     (case validate_interval (str_to_float e) (PStr raw) of
        Inl ex \<Rightarrow> s\<lparr>messages := messages s @ [if ex = ValueError then Error_invalid else Error_apply]\<rparr>
      | Inr (Finite new_min) \<Rightarrow>
          (case load_config e (config_file s) of
             (file, Inl ex) \<Rightarrow> s\<lparr>config_file := file, messages := messages s @ [Error_apply]\<rparr>
           | (file, Inr cfg) \<Rightarrow>
               if \<not> write_ok e then s\<lparr>config_file := file, messages := messages s @ [Error_apply]\<rparr>
               else
                 (let cfg = dict_set ''interval_min'' (PFloat (Finite new_min)) cfg;
                      cfg = dict_set ''auto_start'' (PBool auto_start) cfg;
                      s = s\<lparr>config_file := save_config e cfg Completed file\<rparr>;
                      s = s\<lparr>reg := fst (set_auto_start e auto_start (reg s))\<rparr>;
                      s = reset_timer new_min s
                  in s\<lparr>messages := messages s @ [Info_applied (Finite new_min)]\<rparr>))
      | Inr _ \<Rightarrow> s\<lparr>messages := messages s @ [Error_apply]\<rparr>)"

text \<open>
  The same handler with the thread for \<open>start_new_timer\<close> only started: the thread
  stands before its call of \<open>schedule_notification\<close> and runs when it is scheduled.
\<close>

definition cancel_and_start :: "real \<Rightarrow> app_state \<Rightarrow> app_state" where
  "cancel_and_start new_min s =
     (let s = (case timer s of None \<Rightarrow> s | Some i \<Rightarrow> s\<lparr>timers := cancel i (timers s)\<rparr>);
          s = s\<lparr>interval_sec := new_min * 60\<rparr>
      in s\<lparr>threads := threads s @ [Scheduling]\<rparr>)"

definition apply_settings_deferred :: "env \<Rightarrow> string \<Rightarrow> bool \<Rightarrow> app_state \<Rightarrow> app_state" where
  "apply_settings_deferred e raw auto_start s =
     (case validate_interval (str_to_float e) (PStr raw) of
        Inl ex \<Rightarrow> s\<lparr>messages := messages s @ [if ex = ValueError then Error_invalid else Error_apply]\<rparr>
      | Inr (Finite new_min) \<Rightarrow>
          (case load_config e (config_file s) of
             (file, Inl ex) \<Rightarrow> s\<lparr>config_file := file, messages := messages s @ [Error_apply]\<rparr>
           | (file, Inr cfg) \<Rightarrow>
               if \<not> write_ok e then s\<lparr>config_file := file, messages := messages s @ [Error_apply]\<rparr>
               else
                 (let cfg = dict_set ''interval_min'' (PFloat (Finite new_min)) cfg;
                      cfg = dict_set ''auto_start'' (PBool auto_start) cfg;
                      s = s\<lparr>config_file := save_config e cfg Completed file\<rparr>;
                      s = s\<lparr>reg := fst (set_auto_start e auto_start (reg s))\<rparr>;
                      s = cancel_and_start new_min s
                  in s\<lparr>messages := messages s @ [Info_applied (Finite new_min)]\<rparr>))
      | Inr _ \<Rightarrow> s\<lparr>messages := messages s @ [Error_apply]\<rparr>)"

section \<open>Main loop and shutdown\<close>

definition cleanup_and_exit :: "app_state \<Rightarrow> app_state" where
  "cleanup_and_exit s =
     (let s = s\<lparr>running := False\<rparr>;
          s = (case timer s of None \<Rightarrow> s | Some i \<Rightarrow> s\<lparr>timers := cancel i (timers s), timer := None\<rparr>);
          s = (case settings_window s of
                 None \<Rightarrow> s
               | Some w \<Rightarrow>
                   if winfo_exists w s then s\<lparr>windows := (windows s)[w := False], settings_window := None\<rparr>
                   else s);
          s = (if tray_icon s then s\<lparr>tray_icon := False\<rparr> else s)
      in if root_window s then s\<lparr>root_window := False\<rparr> else s)"

text \<open>The three producers of the command queue, all on the tray thread.\<close>

datatype tray_event = Menu_open_settings | Menu_exit | Tray_failed

fun tray_command :: "tray_event \<Rightarrow> string" where
  "tray_command Menu_open_settings = ''open_settings''"
| "tray_command Menu_exit = ''exit''"
| "tray_command Tray_failed = ''exit''"

definition toggle_auto_start :: "env \<Rightarrow> app_state \<Rightarrow> app_state" where
  "toggle_auto_start e s =
     (let current_status = get_auto_start_status (reg s);
          new_status = \<not> current_status;
          (r, ok) = set_auto_start e new_status (reg s)
      in s\<lparr>reg := r, messages := messages s @ [if ok then Info_auto_start new_status else Error_auto_start]\<rparr>)"

text \<open>
  One turn of the loop of \<open>process_commands\<close>: the loop runs while \<open>running\<close>;
  a turn takes the oldest command, if there is one, and acts on it.
\<close>

definition dispatch :: "env \<Rightarrow> tk_result \<Rightarrow> string \<Rightarrow> app_state \<Rightarrow> app_state" where
  "dispatch e tk command s =
     (if command = ''exit'' then cleanup_and_exit (s\<lparr>running := False\<rparr>)
      else if command = ''open_settings'' then create_settings_window tk s
      else if command = ''toggle_auto_start'' then toggle_auto_start e s
      else s)"

definition loop_turn :: "env \<Rightarrow> tk_result \<Rightarrow> app_state \<Rightarrow> app_state" where
  "loop_turn e tk s =
     (if \<not> running s then s
      else case command_queue s of
             [] \<Rightarrow> s
           | command # rest \<Rightarrow> dispatch e tk command (s\<lparr>command_queue := rest\<rparr>))"

section \<open>Executions\<close>

text \<open>
  What can happen next: time passes; an armed timer that is due starts its callback; a
  background thread executes its next statement; the tray thread posts a command; the
  main loop takes a turn; the user presses the apply button of an existing settings
  window or closes it. An event that cannot happen in a state leaves it as it is.
\<close>

datatype event =
    Tick real
  | Timer_fires nat
  | Thread_step nat
  | Tray tray_event
  | Loop_turn tk_result
  | Click_apply nat string bool
  | Close_window nat

fun step :: "env \<Rightarrow> event \<Rightarrow> app_state \<Rightarrow> app_state" where
  "step e (Tick d) s = (if d \<ge> 0 then s\<lparr>clock := clock s + d\<rparr> else s)"
| "step e (Timer_fires i) s =
     (if can_fire i s
      then s\<lparr>timers := (timers s)[i := (timers s ! i)\<lparr>status := Fired\<rparr>],
             threads := threads s @ [Notifying]\<rparr>
      else s)"
| "step e (Thread_step j) s = thread_step j s"
| "step e (Tray t) s = s\<lparr>command_queue := command_queue s @ [tray_command t]\<rparr>"
| "step e (Loop_turn tk) s = loop_turn e tk s"
| "step e (Click_apply w raw auto_start) s =
     (if winfo_exists w s then apply_settings_deferred e raw auto_start s else s)"
| "step e (Close_window w) s = (if winfo_exists w s then on_closing w s else s)"

definition run :: "env \<Rightarrow> event list \<Rightarrow> app_state \<Rightarrow> app_state" where
  "run e evs s = fold (step e) evs s"

text \<open>
  An execution in which the apply handler never runs while a background thread is
  unfinished: not between the start of a timer's callback and the end of the
  re-arming that follows it, and not before the thread of an earlier apply has armed
  its timer.
\<close>

fun is_apply :: "event \<Rightarrow> bool" where
  "is_apply (Click_apply w raw auto_start) = True"
| "is_apply _ = False"

fun race_free :: "env \<Rightarrow> event list \<Rightarrow> app_state \<Rightarrow> bool" where
  "race_free e [] s = True"
| "race_free e (ev # evs) s = ((is_apply ev \<longrightarrow> busy s = 0) \<and> race_free e evs (step e ev s))"

text \<open>
  Either the global \<open>timer\<close> holds the one armed timer and every background thread
  has finished, or no timer is armed and at most one background thread is unfinished.
\<close>

definition one_timer :: "app_state \<Rightarrow> bool" where
  "one_timer s =
     ((\<exists>i. armed s = [i] \<and> timer s = Some i \<and> busy s = 0)
      \<or> (armed s = [] \<and> busy s \<le> 1))"

text \<open>The message boxes that only the \<open>toggle_auto_start\<close> branch of the main loop shows.\<close>

definition is_toggle_message :: "message \<Rightarrow> bool" where
  "is_toggle_message m = (case m of Info_auto_start b \<Rightarrow> True | Error_auto_start \<Rightarrow> True | _ \<Rightarrow> False)"

section \<open>Start-up\<close>

text \<open>
  \<open>cfg["interval_min"] * 60\<close>: \<open>load_config\<close> leaves there the integer 60 or a finite
  float.
\<close>

fun times_60 :: "pyval \<Rightarrow> exc + real" where
  "times_60 (PInt i) = Inr (of_int i * 60)"
| "times_60 (PFloat (Finite v)) = Inr (v * 60)"
| "times_60 (PBool b) = Inr (if b then 60 else 0)"
| "times_60 _ = Inl TypeError"

text \<open>
  \<open>main\<close> up to the main loop, at clock reading \<open>now\<close>, on a configuration file and a
  registry: the state the loop starts in, or the exception that ends the program with
  exit code 1.
\<close>

definition main :: "env \<Rightarrow> real \<Rightarrow> string option \<Rightarrow> registry \<Rightarrow> exc + app_state" where
  "main e now file r =
     (case load_config e file of
        (file, Inl ex) \<Rightarrow> Inl ex
      | (file, Inr cfg) \<Rightarrow>
          (case times_60 (dict_get cfg ''interval_min'' PNone) of
             Inl ex \<Rightarrow> Inl ex
           | Inr secs \<Rightarrow>
               (case icon_abs_path e of
                  None \<Rightarrow> Inl FileNotFoundError
                | Some icon_path \<Rightarrow>
                    Inr (send_notification
                          ((schedule_notification
                             \<lparr>clock = now, timer = None, timers = [], interval_sec = secs,
                              next_run_time = None, running = True, threads = [], sent = [],
                              settings_window = None, windows = [], lifted = [],
                              root_window = False, tray_icon = False, command_queue = [],
                              config_file = file, reg = r, messages = []\<rparr>)
                           \<lparr>root_window := True, tray_icon := True\<rparr>)))))"

section \<open>Example environment\<close>

text \<open>
  A concrete environment for evaluating the definitions: the texts that
  \<open>json.load\<close> accepts, named after the document each stands for, and the strings
  \<open>float\<close> reads; every other text is malformed and every other string is not a
  number.
\<close>

definition demo_float :: "string \<Rightarrow> pyfloat option" where
  "demo_float s =
     (if s = ''5'' then Some (Finite 5)
      else if s = ''1'' then Some (Finite 1)
      else if s = ''0.05'' then Some (Finite (1 / 20))
      else if s = ''nan'' then Some NaN
      else if s = ''inf'' then Some PosInf
      else None)"

definition doc_bad_interval :: config where
  "doc_bad_interval = [(''interval_min'', PInt 0), (''icon_path'', PStr ''my.ico'')]"

definition doc_partial :: config where
  "doc_partial = [(''interval_min'', PInt 30), (''icon_path'', PStr ''my.ico'')]"

definition doc_one_minute :: config where
  "doc_one_minute =
     [(''interval_min'', PFloat (Finite 1)),
      (''icon_path'', PStr ''icon.ico''),
      (''log_file'', PStr ''stretch_reminder.log''),
      (''auto_start'', PBool False),
      (''minimize_to_tray'', PBool True)]"

definition demo_loads :: "string \<Rightarrow> pyval option" where
  "demo_loads s =
     (if s = ''bad-interval'' then Some (PDict doc_bad_interval)
      else if s = ''partial'' then Some (PDict doc_partial)
      else if s = ''default'' then Some (PDict default_config)
      else if s = ''one-minute'' then Some (PDict doc_one_minute)
      else if s = ''list'' then Some (PList [])
      else None)"

definition demo_dumps :: "config \<Rightarrow> string" where
  "demo_dumps c =
     (if c = default_config then ''default''
      else if c = doc_one_minute then ''one-minute''
      else ''other'')"

definition demo_env :: env where
  "demo_env =
     \<lparr>str_to_float = demo_float, json_loads = demo_loads, json_dumps = demo_dumps,
      write_ok = True, icon_abs_path = Some ''C:/app/icon.ico'',
      exe_path = ''C:/app/Stretch Reminder.exe''\<rparr>"

definition demo_reg :: registry where
  "demo_reg = \<lparr>run_key = True, run_value = None, info_key = None\<rparr>"

text \<open>The state in which the main loop starts on a first run at clock reading 0.\<close>

definition demo_state :: app_state where
  "demo_state =
     \<lparr>clock = 0, timer = Some 0, timers = [\<lparr>due = 3600, status = Armed\<rparr>], interval_sec = 3600,
      next_run_time = Some 3600, running = True, threads = [], sent = [0],
      settings_window = None, windows = [], lifted = [],
      root_window = True, tray_icon = True, command_queue = [],
      config_file = Some ''default'', reg = demo_reg, messages = []\<rparr>"

text \<open>The same state after the tray's open-settings item and one turn of the main loop.\<close>

definition demo_open :: app_state where
  "demo_open = demo_state\<lparr>settings_window := Some 0, windows := [True]\<rparr>"

text \<open>
  The user has the settings window open and presses the apply button just after a
  notification, while the reschedule thread is asleep; the thread of the apply arms its
  timer, then the reschedule thread wakes and arms another.
\<close>

definition race_trace :: "event list" where
  "race_trace =
     [Tray Menu_open_settings, Loop_turn Tk_ok, Tick 3600, Timer_fires 0,
      Thread_step 0, Thread_step 0,
      Click_apply 0 ''1'' False, Thread_step 1,
      Tick (1 / 10), Thread_step 0, Thread_step 0, Thread_step 0]"

text \<open>The first-run state an hour later: the timer's callback has sent the notification
  and started the reschedule thread, which is asleep.\<close>

definition demo_fired :: app_state where
  "demo_fired =
     demo_state\<lparr>clock := 3600, timers := [\<lparr>due = 3600, status = Fired\<rparr>],
                threads := [Sleeping (3600 + 1 / 10)], sent := [0, 3600]\<rparr>"

text \<open>The same presses at a quiet moment: the interval is changed to one minute, the
  new timer fires a minute later and the reschedule thread re-arms.\<close>

definition calm_trace :: "event list" where
  "calm_trace =
     [Tray Menu_open_settings, Loop_turn Tk_ok, Click_apply 0 ''1'' False, Thread_step 0,
      Tick 60, Timer_fires 1, Thread_step 1, Thread_step 1, Tick (1 / 10),
      Thread_step 1, Thread_step 1, Thread_step 1]"

text \<open>
  The exit command arrives when the reschedule thread has woken and has just found
  \<open>running\<close> true; the thread goes on after the shutdown.
\<close>

definition late_trace :: "event list" where
  "late_trace =
     [Tick 3600, Timer_fires 0, Thread_step 0, Thread_step 0, Tick (1 / 10),
      Thread_step 0, Thread_step 0, Tray Menu_exit, Loop_turn Tk_ok, Thread_step 0]"

section \<open>Properties of the settings store\<close>

lemma py_max_Finite: "py_max c (Finite v) = Finite (max c v)"
  by (simp add: py_max_def max_def)

lemma validate_interval_Finite_result:
  "validate_interval p raw = Inr x \<Longrightarrow> \<exists>v. x = Finite v \<and> py_0_1 \<le> v \<and> v \<le> 1440"
  by (cases "py_float p raw"; cases x)
     (auto simp: validate_interval_def py_max_def py_0_1_def split: if_splits sum.splits pyfloat.splits
           elim: pf_le.elims pf_gt.elims)

text \<open>
  What \<open>validate_interval\<close> does on the inputs that \<open>float\<close> reads as a finite
  number or an infinity, or rejects as not a number: a number \<open>v\<close> with
  \<open>0 < v \<le> 1440\<close> comes back as \<open>max(0.1, v)\<close>; a rejected input
  (ValueError or TypeError) and a value \<open>\<le> 0\<close> or \<open>> 1440\<close> raise the
  invalid-interval ValueError.
\<close>

lemma validate_interval_cases:
  "(py_float p raw = Inr (Finite v) \<and> 0 < v \<and> v \<le> 1440
      \<longrightarrow> validate_interval p raw = Inr (Finite (max py_0_1 v)))
   \<and> (py_float p raw = Inl ValueError \<or> py_float p raw = Inl TypeError
      \<longrightarrow> validate_interval p raw = Inl ValueError)
   \<and> (py_float p raw = Inr x \<and> pf_le x 0 \<longrightarrow> validate_interval p raw = Inl ValueError)
   \<and> (py_float p raw = Inr x \<and> pf_gt x 1440 \<longrightarrow> validate_interval p raw = Inl ValueError)"
  by (auto simp: validate_interval_def py_max_Finite)

lemma validate_interval_examples:
  "validate_interval demo_float (PStr ''5'') = Inr (Finite 5)
   \<and> validate_interval demo_float (PStr ''0.05'') = Inr (Finite py_0_1)
   \<and> validate_interval demo_float (PStr ''five'') = Inl ValueError
   \<and> validate_interval demo_float PNone = Inl ValueError
   \<and> validate_interval demo_float (PInt 0) = Inl ValueError
   \<and> validate_interval demo_float (PStr ''inf'') = Inl ValueError"
  using validate_interval_cases [of demo_float "PStr ''5''" 5 "Finite 5"]
        validate_interval_cases [of demo_float "PStr ''0.05''" "1 / 20" "Finite (1 / 20)"]
        validate_interval_cases [of demo_float "PStr ''five''" 0 NaN]
        validate_interval_cases [of demo_float PNone 0 NaN]
        validate_interval_cases [of demo_float "PInt 0" 0 "Finite 0"]
        validate_interval_cases [of demo_float "PStr ''inf''" 0 PosInf]
  by (simp add: demo_float_def py_0_1_def)

text \<open>
  C4 says that \<open>validate_interval\<close> returns only for a number in \<open>(0, 1440]\<close> and
  raises the invalid-interval error for every other input. The code does not, at two
  kinds of input. NaN (the JSON literal, or the string \<open>nan\<close> typed into the dialog,
  which \<open>float\<close> reads as NaN) is not a number, but both range checks are false for
  it and \<open>max(0.1, nan)\<close> keeps its first argument, so \<open>0.1\<close> is returned. An
  integer that does not fit a double makes \<open>float\<close> raise OverflowError, which the
  handler for ValueError and TypeError does not catch, so another error than the
  invalid-interval one leaves the function, and \<open>load_config\<close> and start-up with it.
\<close>

theorem validate_interval_nan_and_overflow:
  "validate_interval p (PFloat NaN) = Inr (Finite py_0_1)
   \<and> validate_interval demo_float (PStr ''nan'') = Inr (Finite py_0_1)
   \<and> validate_interval p (PInt (2 ^ 1024)) = Inl OverflowError"
  by (simp add: validate_interval_def demo_float_def py_max_def)

lemma map_of_dict_set: "map_of (dict_set k v d) = (map_of d)(k \<mapsto> v)"
  by (simp add: dict_set_def update_conv')

lemma dict_get_map_of: "dict_get d k dflt = (case map_of d k of None \<Rightarrow> dflt | Some v \<Rightarrow> v)"
  by (simp add: dict_get_def)

lemma load_config_unparsable:
  "json_loads e content = None \<Longrightarrow> load_config e (Some content) = (Some content, Inr default_config)"
  by (simp add: load_config_def)

lemma load_config_invalid_interval:
  "json_loads e content = Some (PDict d) \<Longrightarrow>
   validate_interval (str_to_float e) (dict_get d ''interval_min'' (PInt 60)) = Inl ValueError \<Longrightarrow>
   load_config e (Some content) = (Some content, Inr default_config)"
  by (simp add: load_config_def)

lemma load_config_valid_interval:
  assumes "json_loads e content = Some (PDict d)"
    and "validate_interval (str_to_float e) (dict_get d ''interval_min'' (PInt 60)) = Inr v"
  shows "\<exists>cfg. load_config e (Some content) = (Some content, Inr cfg)
           \<and> (\<forall>k. map_of cfg k =
                 (if k = ''interval_min'' then Some (PFloat v)
                  else case map_of d k of Some x \<Rightarrow> Some x | None \<Rightarrow> map_of default_config k))"
  using assms
  by (auto simp: load_config_def Let_def map_of_dict_set dict_get_map_of default_config_def
           split: option.splits)

text \<open>
  C5, as the code has it. For every configuration file that is present: when its text
  does not parse, or parses to an object whose \<open>interval_min\<close> is rejected with the
  invalid-interval error, \<open>load_config\<close> returns the whole default record (no field
  keeps its on-disk value), leaves the file as it is and raises nothing; when the
  interval is valid, every key on disk keeps its value, \<open>interval_min\<close> becomes the
  validated float, and only the missing keys take their defaults.
\<close>

theorem load_config_malformed_gives_defaults:
  "(json_loads e content = None
      \<longrightarrow> load_config e (Some content) = (Some content, Inr default_config))
   \<and> (json_loads e content = Some (PDict d)
       \<and> validate_interval (str_to_float e) (dict_get d ''interval_min'' (PInt 60)) = Inl ValueError
      \<longrightarrow> load_config e (Some content) = (Some content, Inr default_config))
   \<and> (json_loads e content = Some (PDict d)
       \<and> validate_interval (str_to_float e) (dict_get d ''interval_min'' (PInt 60)) = Inr v
      \<longrightarrow> (\<exists>cfg. load_config e (Some content) = (Some content, Inr cfg)
             \<and> (\<forall>k. map_of cfg k =
                   (if k = ''interval_min'' then Some (PFloat v)
                    else case map_of d k of Some x \<Rightarrow> Some x | None \<Rightarrow> map_of default_config k))))"
  using load_config_unparsable load_config_invalid_interval load_config_valid_interval
  by blast

lemma demo_env_simps:
  "str_to_float demo_env = demo_float" "json_loads demo_env = demo_loads"
  "json_dumps demo_env = demo_dumps" "write_ok demo_env"
  "icon_abs_path demo_env = Some ''C:/app/icon.ico''"
  "exe_path demo_env = ''C:/app/Stretch Reminder.exe''"
  by (simp_all add: demo_env_def)

lemma validate_demo_bad: "validate_interval demo_float (dict_get doc_bad_interval ''interval_min'' (PInt 60)) = Inl ValueError"
  by (simp add: validate_interval_def dict_get_def doc_bad_interval_def)

lemma validate_demo_partial:
  "validate_interval demo_float (dict_get doc_partial ''interval_min'' (PInt 60)) = Inr (Finite 30)"
  by (simp add: validate_interval_def dict_get_def doc_partial_def py_max_def py_0_1_def)

theorem load_config_malformed_gives_defaults_witness:
  "load_config demo_env (Some ''{'') = (Some ''{'', Inr default_config)
   \<and> load_config demo_env (Some ''bad-interval'') = (Some ''bad-interval'', Inr default_config)
   \<and> (\<exists>cfg. load_config demo_env (Some ''partial'') = (Some ''partial'', Inr cfg)
        \<and> map_of cfg ''interval_min'' = Some (PFloat (Finite 30))
        \<and> map_of cfg ''icon_path'' = Some (PStr ''my.ico'')
        \<and> map_of cfg ''auto_start'' = Some (PBool False))"
proof -
  have 1: "json_loads demo_env ''{'' = None"
    by (simp add: demo_env_simps demo_loads_def)
  have 2: "json_loads demo_env ''bad-interval'' = Some (PDict doc_bad_interval)"
    by (simp add: demo_env_simps demo_loads_def)
  have 3: "json_loads demo_env ''partial'' = Some (PDict doc_partial)"
    by (simp add: demo_env_simps demo_loads_def)
  have a: "load_config demo_env (Some ''{'') = (Some ''{'', Inr default_config)"
    using load_config_malformed_gives_defaults [of demo_env "''{''" "[]" NaN] 1 by simp
  have b: "load_config demo_env (Some ''bad-interval'') = (Some ''bad-interval'', Inr default_config)"
    using load_config_malformed_gives_defaults [of demo_env "''bad-interval''" doc_bad_interval NaN]
      2 validate_demo_bad
    by (simp add: demo_env_simps)
  have "\<exists>cfg. load_config demo_env (Some ''partial'') = (Some ''partial'', Inr cfg)
          \<and> (\<forall>k. map_of cfg k =
                (if k = ''interval_min'' then Some (PFloat (Finite 30))
                 else case map_of doc_partial k of Some x \<Rightarrow> Some x | None \<Rightarrow> map_of default_config k))"
    using load_config_malformed_gives_defaults [of demo_env "''partial''" doc_partial "Finite 30"]
      3 validate_demo_partial
    by (simp add: demo_env_simps)
  then obtain cfg where c: "load_config demo_env (Some ''partial'') = (Some ''partial'', Inr cfg)"
    and m: "\<And>k. map_of cfg k =
                (if k = ''interval_min'' then Some (PFloat (Finite 30))
                 else case map_of doc_partial k of Some x \<Rightarrow> Some x | None \<Rightarrow> map_of default_config k)"
    by blast
  have "map_of cfg ''interval_min'' = Some (PFloat (Finite 30))"
    "map_of cfg ''icon_path'' = Some (PStr ''my.ico'')"
    "map_of cfg ''auto_start'' = Some (PBool False)"
    by (simp_all add: m doc_partial_def default_config_def)
  with a b c show ?thesis by blast
qed

text \<open>
  C5 as stated fails: on a file whose only invalid field is the interval, the custom
  icon path on disk is lost, the record returned is the default one.
\<close>

theorem load_config_keeps_valid_fields_counterexample:
  "json_loads demo_env ''bad-interval'' = Some (PDict doc_bad_interval)
   \<and> dict_get doc_bad_interval ''icon_path'' PNone = PStr ''my.ico''
   \<and> snd (load_config demo_env (Some ''bad-interval'')) = Inr default_config
   \<and> dict_get default_config ''icon_path'' PNone = PStr ''icon.ico''"
  using validate_demo_bad
  by (simp add: load_config_def demo_env_simps demo_loads_def dict_get_def doc_bad_interval_def
        default_config_def)

text \<open>
  A file that holds JSON other than an object is not recovered from: \<open>config.get\<close>
  raises AttributeError, which \<open>load_config\<close> does not catch, and start-up ends with it.
\<close>

lemma load_config_non_object_raises:
  "snd (load_config demo_env (Some ''list'')) = Inl AttributeError
   \<and> main demo_env 0 (Some ''list'') demo_reg = Inl AttributeError"
  by (simp add: load_config_def main_def demo_env_simps demo_loads_def)

section \<open>First run\<close>

lemma main_first_run:
  assumes "icon_abs_path e = Some ic"
  shows "main e now None r =
     Inr \<lparr>clock = now, timer = Some 0, timers = [\<lparr>due = now + 3600, status = Armed\<rparr>],
          interval_sec = 3600, next_run_time = Some (now + 3600), running = True, threads = [],
          sent = [now], settings_window = None, windows = [], lifted = [],
          root_window = True, tray_icon = True, command_queue = [],
          config_file = (if write_ok e then Some (json_dumps e default_config) else None),
          reg = r, messages = []\<rparr>"
  using assms
  by (simp add: main_def load_config_def dict_get_def default_config_def
        schedule_notification_def send_notification_def)

text \<open>
  C9. When the configuration file is absent (and can be written), \<open>load_config\<close> creates
  it with the default record, whose interval is 60 minutes, and returns that record;
  start-up (with an icon to show) then arms the first timer 3600 seconds after the
  clock reading and records that time; and \<open>set_auto_start(False)\<close> on a registry whose
  Run key has no value for the application leaves the registry as it is and returns true.
\<close>

theorem first_run_end_to_end:
  assumes "write_ok e" and "icon_abs_path e = Some ic" and "run_key r" and "run_value r = None"
  shows "load_config e None = (Some (json_dumps e default_config), Inr default_config)
         \<and> map_of default_config ''interval_min'' = Some (PInt 60)
         \<and> (\<exists>s. main e now None r = Inr s
                \<and> config_file s = Some (json_dumps e default_config)
                \<and> interval_sec s = 60 * 60
                \<and> timers s = [\<lparr>due = now + 3600, status = Armed\<rparr>]
                \<and> timer s = Some 0
                \<and> next_run_time s = Some (now + 3600))
         \<and> set_auto_start e False r = (r, True)
         \<and> \<not> get_auto_start_status (fst (set_auto_start e False r))"
  using assms main_first_run [of e ic now r]
  by (simp add: load_config_def default_config_def set_auto_start_def get_auto_start_status_def)

theorem first_run_end_to_end_witness:
  "write_ok demo_env \<and> icon_abs_path demo_env = Some ''C:/app/icon.ico''
   \<and> run_key demo_reg \<and> run_value demo_reg = None
   \<and> load_config demo_env None = (Some ''default'', Inr default_config)
   \<and> main demo_env 0 None demo_reg = Inr demo_state
   \<and> set_auto_start demo_env False demo_reg = (demo_reg, True)"
proof -
  have h: "write_ok demo_env" "icon_abs_path demo_env = Some ''C:/app/icon.ico''"
    "run_key demo_reg" "run_value demo_reg = None"
    by (simp_all add: demo_env_simps demo_reg_def)
  have m: "main demo_env 0 None demo_reg = Inr demo_state"
    using main_first_run [OF h(2), of 0 demo_reg]
    by (simp add: demo_state_def demo_env_simps demo_dumps_def)
  show ?thesis
    using first_run_end_to_end [OF h, of 0] h m
    by (simp add: demo_env_simps demo_dumps_def)
qed

section \<open>Saving the configuration\<close>

text \<open>
  C6, as the code has it. The save writes in place: the file is emptied when it is
  opened and then filled with the new text, no second file and no rename are involved.
  A save that completes leaves the new text; one that dies after the open leaves a
  prefix of the new text (the empty text right after the open), whatever the file held
  before; only a save that dies before the open leaves the old content.
\<close>

theorem save_config_in_place:
  "save_config e cfg Completed file = Some (json_dumps e cfg)
   \<and> save_config e cfg Before_open file = file
   \<and> (cp \<noteq> Before_open \<longrightarrow> (\<exists>n. save_config e cfg cp file = Some (take n (json_dumps e cfg))))"
proof (cases cp)
  case After_open
  have "\<exists>n. save_config e cfg cp file = Some (take n (json_dumps e cfg))"
    unfolding After_open by (rule exI [of _ 0]) simp
  then show ?thesis by simp
next
  case (During_write n)
  then show ?thesis by auto
next
  case Completed
  then show ?thesis by (auto intro: exI [of _ "length (json_dumps e cfg)"])
qed simp

theorem save_config_in_place_witness:
  "save_config demo_env default_config Completed (Some ''partial'') = Some ''default''
   \<and> save_config demo_env default_config Before_open (Some ''partial'') = Some ''partial''
   \<and> (\<exists>n. save_config demo_env default_config (During_write 3) (Some ''partial'') = Some (take n ''default''))"
  using save_config_in_place [of demo_env default_config "Some ''partial''" "During_write 3"]
  by (simp add: demo_env_simps demo_dumps_def)

text \<open>
  C6 as stated fails: a crash between the open and the write leaves an empty file,
  which no longer parses, where a valid configuration was.
\<close>

theorem save_config_atomic_counterexample:
  "json_loads demo_env ''partial'' = Some (PDict doc_partial)
   \<and> save_config demo_env default_config After_open (Some ''partial'') = Some ''''
   \<and> json_loads demo_env '''' = None"
  by (simp add: demo_env_simps demo_loads_def)

section \<open>Countdown\<close>

lemma py_int_bounds:
  "0 \<le> x \<Longrightarrow> 0 \<le> py_int x \<and> of_int (py_int x) \<le> x \<and> x < of_int (py_int x) + 1"
  by (simp add: py_int_def)

lemma py_int_nonpos: "x \<le> 0 \<Longrightarrow> py_int x \<le> 0"
  by (auto simp: py_int_def)

lemma py_int_floor_max: "max 0 (py_int x) = \<lfloor>max 0 x\<rfloor>"
proof (cases "0 \<le> x")
  case True
  then show ?thesis by (simp add: py_int_def max_def)
next
  case False
  then have "py_int x \<le> 0" using py_int_nonpos [of x] by simp
  then show ?thesis using False by (simp add: max_def)
qed

text \<open>
  C7. Whenever \<open>next_run_time\<close> is set, the time remaining that the countdown shows
  is never negative, whatever the relation between the clock and \<open>next_run_time\<close>:
  it is \<open>max(0, next_run_time - now)\<close> in the whole seconds the label counts (the
  difference cut by \<open>int\<close> and floored at zero, which is the floor of that maximum),
  and it is 0 once the fire time has passed, until the next re-arming moves
  \<open>next_run_time\<close>. The label shows it as minutes and seconds, the seconds in
  \<open>0..59\<close>.
\<close>

theorem countdown_never_negative:
  assumes "next_run_time s = Some t" and "t \<noteq> 0"
  shows "\<exists>r. remaining_seconds s = Some r
           \<and> r = max 0 (py_int (t - clock s))
           \<and> r = \<lfloor>max 0 (t - clock s)\<rfloor>
           \<and> 0 \<le> r
           \<and> (t \<le> clock s \<longrightarrow> r = 0)
           \<and> of_int r \<le> max 0 (t - clock s)
           \<and> max 0 (t - clock s) < of_int r + 1
           \<and> update_countdown s = Some (r div 60, r mod 60)
           \<and> 0 \<le> r div 60 \<and> 0 \<le> r mod 60 \<and> r mod 60 < 60"
proof -
  define r where "r = max 0 (py_int (t - clock s))"
  have rs: "remaining_seconds s = Some r"
    using assms by (simp add: remaining_seconds_def r_def Let_def max_def)
  have fl: "r = \<lfloor>max 0 (t - clock s)\<rfloor>"
    by (simp add: r_def py_int_floor_max)
  have nonneg: "0 \<le> r" by (simp add: r_def)
  have past: "t \<le> clock s \<longrightarrow> r = 0"
    using py_int_nonpos [of "t - clock s"] by (auto simp: r_def max_def)
  have bounds: "of_int r \<le> max 0 (t - clock s) \<and> max 0 (t - clock s) < of_int r + 1"
  proof (cases "0 \<le> t - clock s")
    case True
    then show ?thesis using py_int_bounds [of "t - clock s"] by (simp add: r_def max_def)
  next
    case False
    then show ?thesis using py_int_nonpos [of "t - clock s"] by (simp add: r_def max_def)
  qed
  have uc: "update_countdown s = Some (r div 60, r mod 60)"
    by (simp add: update_countdown_def rs)
  have d: "0 \<le> r div 60" using nonneg by (simp add: pos_imp_zdiv_nonneg_iff)
  have m: "0 \<le> r mod 60 \<and> r mod 60 < 60" by simp
  have def: "r = max 0 (py_int (t - clock s))" by (simp add: r_def)
  show ?thesis
    using rs def fl nonneg past bounds uc d m by (intro exI [of _ r]) blast
qed

lemma step_Tick_demo: "run demo_env [Tick d] demo_state = (if d \<ge> 0 then demo_state\<lparr>clock := d\<rparr> else demo_state)"
  by (simp add: run_def demo_state_def)

theorem countdown_never_negative_witness:
  "next_run_time (run demo_env [Tick 3700] demo_state) = Some 3600 \<and> (3600::real) \<noteq> 0
   \<and> remaining_seconds (run demo_env [Tick 3700] demo_state) = Some 0
   \<and> remaining_seconds (run demo_env [Tick 100] demo_state) = Some 3500
   \<and> update_countdown (run demo_env [Tick 100] demo_state) = Some (58, 20)
   \<and> remaining_seconds (run demo_env [Tick (7195 / 2)] demo_state) = Some 2"
proof -
  have a: "next_run_time (run demo_env [Tick 3700] demo_state) = Some 3600"
    and c: "clock (run demo_env [Tick 3700] demo_state) = 3700"
    and a': "next_run_time (run demo_env [Tick 100] demo_state) = Some 3600"
    and c': "clock (run demo_env [Tick 100] demo_state) = 100"
    by (simp_all add: step_Tick_demo) (simp_all add: demo_state_def)
  have a'': "next_run_time (run demo_env [Tick (7195 / 2)] demo_state) = Some 3600"
    and c'': "clock (run demo_env [Tick (7195 / 2)] demo_state) = 7195 / 2"
    by (simp_all add: step_Tick_demo) (simp_all add: demo_state_def)
  have i: "py_int 3500 = 3500" by (simp add: py_int_def)
  have "\<lfloor>5 / 2 :: real\<rfloor> = 2" by linarith
  then have f: "\<lfloor>max 0 (3600 - 7195 / 2 :: real)\<rfloor> = 2" by simp
  have 1: "remaining_seconds (run demo_env [Tick 3700] demo_state) = Some 0"
    using countdown_never_negative [OF a] c by auto
  have 2: "remaining_seconds (run demo_env [Tick 100] demo_state) = Some 3500"
    "update_countdown (run demo_env [Tick 100] demo_state) = Some (58, 20)"
    using countdown_never_negative [OF a'] c' i by auto
  have 3: "remaining_seconds (run demo_env [Tick (7195 / 2)] demo_state) = Some 2"
    using countdown_never_negative [OF a''] c'' f by auto
  show ?thesis using a 1 2 3 by simp
qed

section \<open>Settings window\<close>

lemma create_settings_window_refocus:
  "settings_window s = Some w \<Longrightarrow> winfo_exists w s \<Longrightarrow> tk \<noteq> Lift_raises \<Longrightarrow>
   create_settings_window tk s = s\<lparr>lifted := lifted s @ [w]\<rparr>"
  by (simp add: create_settings_window_def)

lemma dispatch_open_settings: "dispatch e tk ''open_settings'' s = create_settings_window tk s"
  by (simp add: dispatch_def)

lemma fold_open_settings_refocus:
  "settings_window s = Some w \<Longrightarrow> winfo_exists w s \<Longrightarrow> Lift_raises \<notin> set tks \<Longrightarrow>
   fold (\<lambda>tk. dispatch e tk ''open_settings'') tks s = s\<lparr>lifted := lifted s @ replicate (length tks) w\<rparr>"
proof (induction tks arbitrary: s)
  case Nil
  then show ?case by simp
next
  case (Cons tk tks)
  let ?s1 = "s\<lparr>lifted := lifted s @ [w]\<rparr>"
  have "tk \<noteq> Lift_raises" using Cons.prems by auto
  then have one: "dispatch e tk ''open_settings'' s = ?s1"
    using Cons.prems by (simp add: dispatch_open_settings create_settings_window_refocus)
  have "fold (\<lambda>tk. dispatch e tk ''open_settings'') tks ?s1
          = ?s1\<lparr>lifted := lifted ?s1 @ replicate (length tks) w\<rparr>"
    using Cons.prems by (intro Cons.IH) (simp_all add: winfo_exists_def)
  then show ?case by (simp add: one replicate_app_Cons_same)
qed

lemma only_window_closed:
  assumes "\<And>k. winfo_exists k s \<Longrightarrow> k = w" and "root_window s" and "k < length (windows s)"
  shows "\<not> (windows s)[w := False] ! k"
proof (cases "k = w")
  case True
  then show ?thesis using assms(3) by simp
next
  case False
  then have "\<not> winfo_exists k s" using assms(1) by blast
  then show ?thesis using False assms(2,3) by (simp add: winfo_exists_def)
qed

lemma existing_windows_lifted [simp]: "existing_windows (s\<lparr>lifted := l\<rparr>) = existing_windows s"
  by (simp add: existing_windows_def winfo_exists_def)

lemma existing_windows_reopen:
  assumes "existing_windows s = [w]"
  shows "existing_windows (create_settings_window Tk_ok (on_closing w s)) = [length (windows s)]"
proof -
  have mem: "\<And>k. k \<in> set (existing_windows s) \<longleftrightarrow> k = w" using assms by simp
  then have w: "winfo_exists w s" and others: "\<And>k. winfo_exists k s \<Longrightarrow> k = w"
    by (auto simp: existing_windows_def winfo_exists_def)
  let ?t = "create_settings_window Tk_ok (on_closing w s)"
  have t: "?t = s\<lparr>settings_window := Some (length (windows s)),
                  windows := (windows s)[w := False] @ [True]\<rparr>"
    by (simp add: create_settings_window_def on_closing_def new_window_def)
  have r: "root_window s" using w by (simp add: winfo_exists_def)
  have "\<And>k. k < length (windows s) \<Longrightarrow> \<not> ((windows s)[w := False]) ! k"
    using only_window_closed [OF others r] by blast
  then have "filter (\<lambda>k. winfo_exists k ?t) [0 ..< length (windows s)] = []"
    by (auto simp: t winfo_exists_def nth_append filter_empty_conv)
  then show ?thesis
    using r by (simp add: existing_windows_def t winfo_exists_def nth_append)
qed

text \<open>
  C8. While a settings window is open and is the only one, every sequence of
  \<open>open_settings\<close> commands the main loop processes (with \<open>lift\<close> and \<open>focus_force\<close>
  doing their work) leaves exactly that one window: each command raises and focuses it
  and creates nothing. Closing the window clears the reference and destroys it, and the
  next \<open>open_settings\<close> creates a new window, again the only one.
\<close>

theorem open_settings_single_window:
  assumes "settings_window s = Some w" and "existing_windows s = [w]"
    and "Lift_raises \<notin> set tks"
  shows "fold (\<lambda>tk. dispatch e tk ''open_settings'') tks s
           = s\<lparr>lifted := lifted s @ replicate (length tks) w\<rparr>
         \<and> existing_windows (fold (\<lambda>tk. dispatch e tk ''open_settings'') tks s) = [w]
         \<and> settings_window (fold (\<lambda>tk. dispatch e tk ''open_settings'') tks s) = Some w
         \<and> settings_window (on_closing w s) = None
         \<and> existing_windows (on_closing w s) = []
         \<and> settings_window (dispatch e Tk_ok ''open_settings'' (on_closing w s)) = Some (length (windows s))
         \<and> existing_windows (dispatch e Tk_ok ''open_settings'' (on_closing w s)) = [length (windows s)]"
proof -
  have "w \<in> set (existing_windows s)" using assms(2) by simp
  then have w: "winfo_exists w s" by (simp add: existing_windows_def)
  have f: "fold (\<lambda>tk. dispatch e tk ''open_settings'') tks s
             = s\<lparr>lifted := lifted s @ replicate (length tks) w\<rparr>"
    using fold_open_settings_refocus [OF assms(1) w assms(3)] .
  have others: "\<And>k. winfo_exists k s \<Longrightarrow> k = w"
  proof -
    fix k assume "winfo_exists k s"
    then have "k \<in> set (existing_windows s)" by (simp add: existing_windows_def winfo_exists_def)
    then show "k = w" using assms(2) by simp
  qed
  have closed: "existing_windows (on_closing w s) = []"
  proof (cases "root_window s")
    case True
    then show ?thesis
      using only_window_closed [OF others True]
      by (auto simp: existing_windows_def on_closing_def winfo_exists_def filter_empty_conv)
  next
    case False
    then show ?thesis
      by (simp add: existing_windows_def on_closing_def winfo_exists_def)
  qed
  have reopened: "settings_window (create_settings_window Tk_ok (on_closing w s)) = Some (length (windows s))"
    by (simp add: create_settings_window_def on_closing_def new_window_def)
  show ?thesis
    using f assms closed reopened existing_windows_reopen [OF assms(2)]
    by (simp add: dispatch_open_settings on_closing_def)
qed

lemma demo_open_reached: "run demo_env [Tray Menu_open_settings, Loop_turn Tk_ok] demo_state = demo_open"
  by (simp add: run_def loop_turn_def dispatch_def create_settings_window_def new_window_def
        demo_open_def demo_state_def)

lemma demo_open_windows: "settings_window demo_open = Some 0" "existing_windows demo_open = [0]"
  by (simp_all add: demo_open_def demo_state_def existing_windows_def winfo_exists_def)

theorem open_settings_single_window_witness:
  "settings_window demo_open = Some 0 \<and> existing_windows demo_open = [0]
   \<and> Lift_raises \<notin> set [Tk_ok, Tk_ok]
   \<and> fold (\<lambda>tk. dispatch demo_env tk ''open_settings'') [Tk_ok, Tk_ok] demo_open
        = demo_open\<lparr>lifted := [0, 0]\<rparr>
   \<and> existing_windows (fold (\<lambda>tk. dispatch demo_env tk ''open_settings'') [Tk_ok, Tk_ok] demo_open) = [0]
   \<and> existing_windows (on_closing 0 demo_open) = []
   \<and> existing_windows (dispatch demo_env Tk_ok ''open_settings'' (on_closing 0 demo_open)) = [1]"
proof -
  have h: "Lift_raises \<notin> set [Tk_ok, Tk_ok]" by simp
  have l: "lifted demo_open = []" "length (windows demo_open) = 1"
    by (simp_all add: demo_open_def demo_state_def)
  show ?thesis
    using open_settings_single_window [OF demo_open_windows h, of demo_env] demo_open_windows l
    by (simp add: numeral_2_eq_2)
qed

section \<open>Command queue\<close>

lemma queue_schedule_notification [simp]:
  "command_queue (schedule_notification s) = command_queue s"
  "messages (schedule_notification s) = messages s"
  by (simp_all add: schedule_notification_def Let_def)

lemma queue_advance:
  "command_queue (snd (advance p s)) = command_queue s"
  "messages (snd (advance p s)) = messages s"
  by (cases p; simp add: send_notification_def)+

lemma queue_thread_step [simp]:
  "command_queue (thread_step j s) = command_queue s"
  "messages (thread_step j s) = messages s"
  using queue_advance [of "threads s ! j" s]
  by (auto simp: thread_step_def split: prod.splits)

lemma queue_cancel_and_start [simp]:
  "command_queue (cancel_and_start m s) = command_queue s"
  "messages (cancel_and_start m s) = messages s"
  by (simp_all add: cancel_and_start_def Let_def split: option.splits)

lemma queue_reset_timer [simp]:
  "command_queue (reset_timer m s) = command_queue s"
  "messages (reset_timer m s) = messages s"
  by (simp_all add: reset_timer_def Let_def split: option.splits)

lemma queue_cleanup_and_exit [simp]:
  "command_queue (cleanup_and_exit s) = command_queue s"
  "messages (cleanup_and_exit s) = messages s"
  by (simp_all add: cleanup_and_exit_def Let_def split: option.splits)

lemma queue_create_settings_window [simp]:
  "command_queue (create_settings_window tk s) = command_queue s"
  "messages (create_settings_window tk s) = messages s"
  by (simp_all add: create_settings_window_def new_window_def split: option.splits)

lemma queue_on_closing [simp]:
  "command_queue (on_closing w s) = command_queue s"
  "messages (on_closing w s) = messages s"
  by (simp_all add: on_closing_def)

lemma queue_apply_settings:
  "command_queue (apply_settings_deferred e raw b s) = command_queue s"
  "filter is_toggle_message (messages (apply_settings_deferred e raw b s))
     = filter is_toggle_message (messages s)"
  by (simp_all add: apply_settings_deferred_def Let_def is_toggle_message_def
        split: sum.splits pyfloat.splits prod.splits)

lemma toggle_branch_is_visible:
  "filter is_toggle_message (messages (dispatch e tk ''toggle_auto_start'' s))
     = filter is_toggle_message (messages s) @ [last (messages (dispatch e tk ''toggle_auto_start'' s))]"
  by (simp add: dispatch_def toggle_auto_start_def Let_def is_toggle_message_def split: prod.splits)

lemma tray_command_cases: "tray_command t = ''open_settings'' \<or> tray_command t = ''exit''"
  by (cases t) simp_all

lemma loop_turn_keeps_tray_commands:
  assumes "set (command_queue s) \<subseteq> {''open_settings'', ''exit''}"
  shows "set (command_queue (loop_turn e tk s)) \<subseteq> {''open_settings'', ''exit''}
         \<and> filter is_toggle_message (messages (loop_turn e tk s)) = filter is_toggle_message (messages s)"
proof (cases "running s")
  case False
  then show ?thesis using assms by (simp add: loop_turn_def)
next
  case True
  show ?thesis
  proof (cases "command_queue s")
    case Nil
    then show ?thesis using True by (simp add: loop_turn_def)
  next
    case (Cons c rest)
    then have c: "c = ''open_settings'' \<or> c = ''exit''" and rest: "set rest \<subseteq> {''open_settings'', ''exit''}"
      using assms by auto
    from c show ?thesis
    proof
      assume "c = ''open_settings''"
      then show ?thesis using True Cons rest by (simp add: loop_turn_def dispatch_def)
    next
      assume "c = ''exit''"
      then show ?thesis using True Cons rest by (simp add: loop_turn_def dispatch_def)
    qed
  qed
qed

lemma step_keeps_tray_commands:
  assumes "set (command_queue s) \<subseteq> {''open_settings'', ''exit''}"
  shows "set (command_queue (step e ev s)) \<subseteq> {''open_settings'', ''exit''}
         \<and> filter is_toggle_message (messages (step e ev s)) = filter is_toggle_message (messages s)"
proof (cases ev)
  case (Tray t)
  then show ?thesis using assms tray_command_cases [of t] by auto
next
  case (Loop_turn tk)
  then show ?thesis using loop_turn_keeps_tray_commands [OF assms] by simp
next
  case (Click_apply w raw b)
  then show ?thesis using assms by (simp add: queue_apply_settings)
qed (use assms in simp_all)

lemma run_keeps_tray_commands:
  "set (command_queue s) \<subseteq> {''open_settings'', ''exit''} \<Longrightarrow>
   set (command_queue (run e evs s)) \<subseteq> {''open_settings'', ''exit''}
   \<and> filter is_toggle_message (messages (run e evs s)) = filter is_toggle_message (messages s)"
proof (induction evs arbitrary: s)
  case Nil
  then show ?case by (simp add: run_def)
next
  case (Cons ev evs)
  have r: "run e (ev # evs) s = run e evs (step e ev s)" by (simp add: run_def)
  show ?case
    using step_keeps_tray_commands [OF Cons.prems, of e ev]
      Cons.IH [of "step e ev s"]
    by (simp add: r)
qed

lemma main_starts_empty:
  "main e now file r = Inr s0 \<Longrightarrow> command_queue s0 = [] \<and> messages s0 = []"
  by (auto simp: main_def send_notification_def split: prod.splits sum.splits option.splits)

text \<open>
  C10. Each of the three producers of the command queue (the two items of the tray menu
  and the failure path of the tray thread) posts \<open>open_settings\<close> or \<open>exit\<close>, never
  \<open>toggle_auto_start\<close>. Hence in every execution from start-up the queue only ever
  holds those two commands and the main loop never takes its \<open>toggle_auto_start\<close>
  branch: none of the message boxes that branch always shows is ever shown.
\<close>

theorem tray_never_toggles:
  assumes "main e now file r = Inr s0"
  shows "(tray_command t = ''open_settings'' \<or> tray_command t = ''exit'')
         \<and> tray_command t \<noteq> ''toggle_auto_start''
         \<and> set (command_queue (run e evs s0)) \<subseteq> {''open_settings'', ''exit''}
         \<and> filter is_toggle_message (messages (run e evs s0)) = []"
proof -
  have q: "set (command_queue s0) \<subseteq> {''open_settings'', ''exit''}" and m: "messages s0 = []"
    using main_starts_empty [OF assms] by simp_all
  have "tray_command t \<noteq> ''toggle_auto_start''" by (cases t) simp_all
  then show ?thesis
    using run_keeps_tray_commands [OF q, of e evs] tray_command_cases [of t] m by simp
qed

theorem tray_never_toggles_witness:
  "main demo_env 0 None demo_reg = Inr demo_state
   \<and> command_queue (run demo_env [Tray Menu_open_settings, Tray Menu_exit, Tray Tray_failed] demo_state)
        = [''open_settings'', ''exit'', ''exit'']
   \<and> set (command_queue (run demo_env [Tray Menu_open_settings, Tray Menu_exit, Tray Tray_failed] demo_state))
        \<subseteq> {''open_settings'', ''exit''}
   \<and> filter is_toggle_message
        (messages (run demo_env [Tray Menu_open_settings, Tray Menu_exit, Tray Tray_failed] demo_state)) = []"
proof -
  have m: "main demo_env 0 None demo_reg = Inr demo_state"
    using main_first_run [of demo_env "''C:/app/icon.ico''" 0 demo_reg]
    by (simp add: demo_state_def demo_env_simps demo_dumps_def)
  have q: "command_queue (run demo_env [Tray Menu_open_settings, Tray Menu_exit, Tray Tray_failed] demo_state)
             = [''open_settings'', ''exit'', ''exit'']"
    by (simp add: run_def demo_state_def)
  show ?thesis
    using tray_never_toggles [OF m, of Menu_exit "[Tray Menu_open_settings, Tray Menu_exit, Tray Tray_failed]"] m q
    by simp
qed

section \<open>Timers\<close>

lemma set_armed_in: "i \<in> set (armed_in ts) \<longleftrightarrow> i < length ts \<and> status (ts ! i) = Armed"
  by (auto simp: armed_in_def)

lemma armed_in_append:
  "armed_in (ts @ [t]) = armed_in ts @ (if status t = Armed then [length ts] else [])"
proof -
  have "filter (\<lambda>i. status ((ts @ [t]) ! i) = Armed) [0 ..< length ts]
          = filter (\<lambda>i. status (ts ! i) = Armed) [0 ..< length ts]"
    by (rule filter_cong) (simp_all add: nth_append)
  then show ?thesis by (simp add: armed_in_def)
qed

lemma armed_in_update:
  assumes "status t \<noteq> Armed"
  shows "armed_in (ts[i := t]) = filter (\<lambda>k. k \<noteq> i) (armed_in ts)"
proof -
  have "(status (ts[i := t] ! k) = Armed) = (status (ts ! k) = Armed \<and> k \<noteq> i)"
    if "k < length ts" for k
    using that assms by (cases "k = i") simp_all
  then have "filter (\<lambda>k. status (ts[i := t] ! k) = Armed) [0 ..< length ts]
          = filter (\<lambda>k. status (ts ! k) = Armed \<and> k \<noteq> i) [0 ..< length ts]"
    by (intro filter_cong) simp_all
  then show ?thesis by (simp add: armed_in_def)
qed

lemma armed_in_cancel: "armed_in (cancel i ts) = filter (\<lambda>k. k \<noteq> i) (armed_in ts)"
proof (cases "i < length ts \<and> status (ts ! i) = Armed")
  case True
  then show ?thesis by (simp add: cancel_def armed_in_update)
next
  case False
  then have "i \<notin> set (armed_in ts)" by (simp add: set_armed_in)
  then have "filter (\<lambda>k. k \<noteq> i) (armed_in ts) = armed_in ts"
    by (intro filter_True) auto
  then show ?thesis using False by (auto simp: cancel_def)
qed

lemma length_cancel [simp]: "length (cancel i ts) = length ts"
  by (simp add: cancel_def)

lemma schedule_notification_view:
  "timers (schedule_notification s) = timers s @ [\<lparr>due = clock s + interval_sec s, status = Armed\<rparr>]"
  "armed (schedule_notification s) = armed s @ [length (timers s)]"
  "timer (schedule_notification s) = Some (length (timers s))"
  "next_run_time (schedule_notification s) = Some (clock s + interval_sec s)"
  "threads (schedule_notification s) = threads s"
  "running (schedule_notification s) = running s"
  "root_window (schedule_notification s) = root_window s"
  "clock (schedule_notification s) = clock s"
  "interval_sec (schedule_notification s) = interval_sec s"
  by (simp_all add: schedule_notification_def Let_def armed_def armed_in_append)


lemma cleanup_and_exit_view:
  "timers (cleanup_and_exit s) = (case timer s of None \<Rightarrow> timers s | Some i \<Rightarrow> cancel i (timers s))"
  "armed (cleanup_and_exit s) = (case timer s of None \<Rightarrow> armed s | Some i \<Rightarrow> filter (\<lambda>k. k \<noteq> i) (armed s))"
  "timer (cleanup_and_exit s) = None"
  "threads (cleanup_and_exit s) = threads s"
  "running (cleanup_and_exit s) = False"
  "root_window (cleanup_and_exit s) = False"
  "clock (cleanup_and_exit s) = clock s"
  by (simp_all add: cleanup_and_exit_def Let_def armed_def armed_in_cancel split: option.splits)

lemma create_settings_window_view:
  "timers (create_settings_window tk s) = timers s"
  "timer (create_settings_window tk s) = timer s"
  "threads (create_settings_window tk s) = threads s"
  "running (create_settings_window tk s) = running s"
  "root_window (create_settings_window tk s) = root_window s"
  by (simp_all add: create_settings_window_def new_window_def split: option.splits)

lemma toggle_auto_start_view:
  "timers (toggle_auto_start e s) = timers s"
  "timer (toggle_auto_start e s) = timer s"
  "threads (toggle_auto_start e s) = threads s"
  "running (toggle_auto_start e s) = running s"
  "root_window (toggle_auto_start e s) = root_window s"
  by (simp_all add: toggle_auto_start_def Let_def split: prod.splits)

text \<open>What the apply handler does to the state, whichever way it ends.\<close>

lemma apply_settings_shape:
  "(\<exists>f msg. apply_settings e raw b s = s\<lparr>config_file := f, messages := msg\<rparr>)
   \<or> (\<exists>m f r msg. apply_settings e raw b s = (reset_timer m (s\<lparr>config_file := f, reg := r\<rparr>))\<lparr>messages := msg\<rparr>)"
proof (cases "validate_interval (str_to_float e) (PStr raw)")
  case (Inl ex)
  then have "apply_settings e raw b s
      = s\<lparr>config_file := config_file s,
          messages := messages s @ [if ex = ValueError then Error_invalid else Error_apply]\<rparr>"
    by (simp add: apply_settings_def)
  then show ?thesis by blast
next
  case (Inr v)
  show ?thesis
  proof (cases v)
    case (Finite m)
    obtain f res where l: "load_config e (config_file s) = (f, res)" by (cases "load_config e (config_file s)")
    show ?thesis
    proof (cases res)
      case (Inl ex)
      then have "apply_settings e raw b s = s\<lparr>config_file := f, messages := messages s @ [Error_apply]\<rparr>"
        using Inr Finite l by (simp add: apply_settings_def)
      then show ?thesis by blast
    next
      case cfg: (Inr cfg)
      show ?thesis
      proof (cases "write_ok e")
        case False
        then have "apply_settings e raw b s = s\<lparr>config_file := f, messages := messages s @ [Error_apply]\<rparr>"
          using Inr Finite l cfg by (simp add: apply_settings_def)
        then show ?thesis by blast
      next
        case True
        then have "apply_settings e raw b s
            = (reset_timer m (s\<lparr>config_file :=
                   Some (json_dumps e (dict_set ''auto_start'' (PBool b)
                           (dict_set ''interval_min'' (PFloat (Finite m)) cfg))),
                 reg := fst (set_auto_start e b (reg s))\<rparr>))
              \<lparr>messages := messages s @ [Info_applied (Finite m)]\<rparr>"
          using Inr Finite l cfg by (simp add: apply_settings_def Let_def)
        then show ?thesis by blast
      qed
    qed
  next
    case PosInf
    then have "apply_settings e raw b s = s\<lparr>config_file := config_file s, messages := messages s @ [Error_apply]\<rparr>"
      using Inr by (simp add: apply_settings_def)
    then show ?thesis by blast
  next
    case NegInf
    then have "apply_settings e raw b s = s\<lparr>config_file := config_file s, messages := messages s @ [Error_apply]\<rparr>"
      using Inr by (simp add: apply_settings_def)
    then show ?thesis by blast
  next
    case NaN
    then have "apply_settings e raw b s = s\<lparr>config_file := config_file s, messages := messages s @ [Error_apply]\<rparr>"
      using Inr by (simp add: apply_settings_def)
    then show ?thesis by blast
  qed
qed

lemma apply_settings_ok:
  assumes "validate_interval (str_to_float e) (PStr raw) = Inr (Finite m)"
    and "load_config e (config_file s) = (f, Inr cfg)"
    and "write_ok e"
  shows "apply_settings e raw b s
           = (reset_timer m (s\<lparr>config_file :=
                  Some (json_dumps e (dict_set ''auto_start'' (PBool b)
                          (dict_set ''interval_min'' (PFloat (Finite m)) cfg))),
                reg := fst (set_auto_start e b (reg s))\<rparr>))
             \<lparr>messages := messages s @ [Info_applied (Finite m)]\<rparr>"
  using assms by (simp add: apply_settings_def Let_def)

lemma cancel_and_start_view:
  "timers (cancel_and_start m s) = (case timer s of None \<Rightarrow> timers s | Some i \<Rightarrow> cancel i (timers s))"
  "armed (cancel_and_start m s)
     = (case timer s of None \<Rightarrow> armed s | Some i \<Rightarrow> filter (\<lambda>k. k \<noteq> i) (armed s))"
  "timer (cancel_and_start m s) = timer s"
  "threads (cancel_and_start m s) = threads s @ [Scheduling]"
  "running (cancel_and_start m s) = running s"
  "root_window (cancel_and_start m s) = root_window s"
  "clock (cancel_and_start m s) = clock s"
  "interval_sec (cancel_and_start m s) = m * 60"
  by (simp_all add: cancel_and_start_def Let_def armed_def armed_in_cancel split: option.splits)

lemma apply_settings_deferred_shape:
  "(\<exists>f msg. apply_settings_deferred e raw b s = s\<lparr>config_file := f, messages := msg\<rparr>)
   \<or> (\<exists>m f r msg. apply_settings_deferred e raw b s
          = (cancel_and_start m (s\<lparr>config_file := f, reg := r\<rparr>))\<lparr>messages := msg\<rparr>)"
proof (cases "validate_interval (str_to_float e) (PStr raw)")
  case (Inl ex)
  then have "apply_settings_deferred e raw b s
      = s\<lparr>config_file := config_file s,
          messages := messages s @ [if ex = ValueError then Error_invalid else Error_apply]\<rparr>"
    by (simp add: apply_settings_deferred_def)
  then show ?thesis by blast
next
  case (Inr v)
  show ?thesis
  proof (cases v)
    case (Finite m)
    obtain f res where l: "load_config e (config_file s) = (f, res)" by (cases "load_config e (config_file s)")
    show ?thesis
    proof (cases res)
      case (Inl ex)
      then have "apply_settings_deferred e raw b s = s\<lparr>config_file := f, messages := messages s @ [Error_apply]\<rparr>"
        using Inr Finite l by (simp add: apply_settings_deferred_def)
      then show ?thesis by blast
    next
      case cfg: (Inr cfg)
      show ?thesis
      proof (cases "write_ok e")
        case False
        then have "apply_settings_deferred e raw b s = s\<lparr>config_file := f, messages := messages s @ [Error_apply]\<rparr>"
          using Inr Finite l cfg by (simp add: apply_settings_deferred_def)
        then show ?thesis by blast
      next
        case True
        then have "apply_settings_deferred e raw b s
            = (cancel_and_start m (s\<lparr>config_file :=
                   Some (json_dumps e (dict_set ''auto_start'' (PBool b)
                           (dict_set ''interval_min'' (PFloat (Finite m)) cfg))),
                 reg := fst (set_auto_start e b (reg s))\<rparr>))
              \<lparr>messages := messages s @ [Info_applied (Finite m)]\<rparr>"
          using Inr Finite l cfg by (simp add: apply_settings_deferred_def Let_def)
        then show ?thesis by blast
      qed
    qed
  next
    case PosInf
    then have "apply_settings_deferred e raw b s = s\<lparr>config_file := config_file s, messages := messages s @ [Error_apply]\<rparr>"
      using Inr by (simp add: apply_settings_deferred_def)
    then show ?thesis by blast
  next
    case NegInf
    then have "apply_settings_deferred e raw b s = s\<lparr>config_file := config_file s, messages := messages s @ [Error_apply]\<rparr>"
      using Inr by (simp add: apply_settings_deferred_def)
    then show ?thesis by blast
  next
    case NaN
    then have "apply_settings_deferred e raw b s = s\<lparr>config_file := config_file s, messages := messages s @ [Error_apply]\<rparr>"
      using Inr by (simp add: apply_settings_deferred_def)
    then show ?thesis by blast
  qed
qed

lemma apply_settings_deferred_ok:
  assumes "validate_interval (str_to_float e) (PStr raw) = Inr (Finite m)"
    and "load_config e (config_file s) = (f, Inr cfg)"
    and "write_ok e"
  shows "apply_settings_deferred e raw b s
           = (cancel_and_start m (s\<lparr>config_file :=
                  Some (json_dumps e (dict_set ''auto_start'' (PBool b)
                          (dict_set ''interval_min'' (PFloat (Finite m)) cfg))),
                reg := fst (set_auto_start e b (reg s))\<rparr>))
             \<lparr>messages := messages s @ [Info_applied (Finite m)]\<rparr>"
  using assms by (simp add: apply_settings_deferred_def Let_def)

text \<open>
  The handler that runs its thread at once is the handler that only starts the thread,
  followed by the one step of that thread.
\<close>

lemma cancel_and_start_then_thread:
  "thread_step (length (threads s)) ((cancel_and_start m s)\<lparr>messages := ms\<rparr>)
     = (reset_timer m s)\<lparr>messages := ms, threads := threads s @ [Done]\<rparr>"
  by (simp add: thread_step_def cancel_and_start_def reset_timer_def schedule_notification_def Let_def
        split: option.splits)

lemma apply_settings_deferred_then_thread:
  assumes "validate_interval (str_to_float e) (PStr raw) = Inr (Finite m)"
    and "load_config e (config_file s) = (f, Inr cfg)"
    and "write_ok e"
  shows "thread_step (length (threads s)) (apply_settings_deferred e raw b s)
           = (apply_settings e raw b s)\<lparr>threads := threads s @ [Done]\<rparr>"
proof -
  let ?s1 = "s\<lparr>config_file := Some (json_dumps e (dict_set ''auto_start'' (PBool b)
                     (dict_set ''interval_min'' (PFloat (Finite m)) cfg))),
               reg := fst (set_auto_start e b (reg s))\<rparr>"
  have "threads ?s1 = threads s" by simp
  then show ?thesis
    using cancel_and_start_then_thread
            [where s = ?s1 and m = m and ms = "messages s @ [Info_applied (Finite m)]"]
    by (simp add: apply_settings_deferred_ok [OF assms] apply_settings_ok [OF assms])
qed

section \<open>Background threads\<close>

lemma count_update:
  "j < length xs \<Longrightarrow>
   length (filter P (xs[j := p])) + (if P (xs ! j) then 1 else 0)
     = length (filter P xs) + (if P p then 1 else 0)"
proof (induction xs arbitrary: j)
  case Nil
  then show ?case by simp
next
  case (Cons x xs)
  then show ?case by (cases j) auto
qed

lemma advance_frame:
  "threads (snd (advance p s)) = threads s"
  "running (snd (advance p s)) = running s"
  "root_window (snd (advance p s)) = root_window s"
  by (cases p; simp add: send_notification_def schedule_notification_view)+

lemma advance_timers:
  "p \<noteq> Scheduling \<Longrightarrow> timers (snd (advance p s)) = timers s \<and> timer (snd (advance p s)) = timer s"
  by (cases p) (simp_all add: send_notification_def)

lemma thread_step_view:
  assumes "j < length (threads s)"
  shows "timers (thread_step j s) = timers (snd (advance (threads s ! j) s))"
    "timer (thread_step j s) = timer (snd (advance (threads s ! j) s))"
    "threads (thread_step j s) = (threads s)[j := fst (advance (threads s ! j) s)]"
    "running (thread_step j s) = running s"
    "root_window (thread_step j s) = root_window s"
  using assms advance_frame [of "threads s ! j" s]
  by (auto simp: thread_step_def split: prod.splits)

lemma thread_step_beyond: "\<not> j < length (threads s) \<Longrightarrow> thread_step j s = s"
  by (simp add: thread_step_def)

lemma busy_thread_step:
  assumes "j < length (threads s)"
  shows "busy (thread_step j s) + (if threads s ! j \<noteq> Done then 1 else 0)
           = busy s + (if fst (advance (threads s ! j) s) \<noteq> Done then 1 else 0)"
  using count_update [OF assms, of "\<lambda>p. p \<noteq> Done" "fst (advance (threads s ! j) s)"]
  by (simp add: busy_def thread_step_view [OF assms])

lemma busy_positive: "j < length (threads s) \<Longrightarrow> threads s ! j \<noteq> Done \<Longrightarrow> 0 < busy s"
  by (auto simp: busy_def filter_empty_conv dest: nth_mem)

lemma armed_frame [simp]:
  "armed (s\<lparr>messages := ms\<rparr>) = armed s"
  "armed (s\<lparr>clock := c\<rparr>) = armed s"
  "armed (s\<lparr>threads := th\<rparr>) = armed s"
  "armed (s\<lparr>command_queue := q\<rparr>) = armed s"
  "armed (s\<lparr>running := b\<rparr>) = armed s"
  "armed (s\<lparr>config_file := f\<rparr>) = armed s"
  "armed (s\<lparr>reg := r\<rparr>) = armed s"
  by (simp_all add: armed_def)

lemma set_armed: "k \<in> set (armed s) \<longleftrightarrow> k < length (timers s) \<and> status (timers s ! k) = Armed"
  by (simp add: armed_def set_armed_in)

section \<open>Reset to a new interval\<close>



lemma validate_demo_one: "validate_interval (str_to_float demo_env) (PStr ''1'') = Inr (Finite 1)"
  by (simp add: validate_interval_def demo_env_simps demo_float_def py_max_def py_0_1_def)



section \<open>Shutdown\<close>

lemma cleanup_and_exit_stopped:
  assumes "\<not> running t" and "timer t = None" and "\<not> tray_icon t" and "\<not> root_window t"
  shows "cleanup_and_exit t = t"
proof -
  have "t\<lparr>running := False\<rparr> = t" using assms(1) by simp
  then show ?thesis
    using assms by (simp add: cleanup_and_exit_def winfo_exists_def Let_def split: option.splits)
qed

lemma cleanup_and_exit_idem: "cleanup_and_exit (cleanup_and_exit s) = cleanup_and_exit s"
proof -
  have "timer (cleanup_and_exit s) = None" "\<not> tray_icon (cleanup_and_exit s)"
    "\<not> root_window (cleanup_and_exit s)" "\<not> running (cleanup_and_exit s)"
    by (simp_all add: cleanup_and_exit_def Let_def split: option.splits)
  then show ?thesis by (intro cleanup_and_exit_stopped)
qed

text \<open>Once \<open>running\<close> is false, no thread gets past a test of it.\<close>

lemma advance_stopped:
  assumes "\<not> running s" and "p \<noteq> Scheduling"
  shows "fst (advance p s) \<noteq> Scheduling"
  using assms by (cases p) simp_all

lemma thread_step_after_shutdown:
  assumes "\<not> running s" and "\<not> root_window s" and "Scheduling \<notin> set (threads s)"
  shows "\<not> running (thread_step j s) \<and> \<not> root_window (thread_step j s)
         \<and> Scheduling \<notin> set (threads (thread_step j s))
         \<and> timers (thread_step j s) = timers s"
proof (cases "j < length (threads s)")
  case False
  then show ?thesis using assms by (simp add: thread_step_beyond)
next
  case True
  then have p: "threads s ! j \<noteq> Scheduling" using assms(3) nth_mem by fastforce
  have "set ((threads s)[j := fst (advance (threads s ! j) s)])
          \<subseteq> insert (fst (advance (threads s ! j) s)) (set (threads s))"
    by (rule set_update_subset_insert)
  then have "Scheduling \<notin> set ((threads s)[j := fst (advance (threads s ! j) s)])"
    using advance_stopped [OF assms(1) p] assms(3) by (metis insertE subsetD)
  then show ?thesis
    using assms(1,2) advance_timers [OF p, of s] by (simp add: thread_step_view [OF True])
qed

lemma step_after_shutdown:
  assumes "\<not> running s" and "\<not> root_window s" and "Scheduling \<notin> set (threads s)"
  shows "\<not> running (step e ev s) \<and> \<not> root_window (step e ev s)
         \<and> Scheduling \<notin> set (threads (step e ev s))
         \<and> length (timers (step e ev s)) = length (timers s)
         \<and> set (armed (step e ev s)) \<subseteq> set (armed s)"
proof (cases ev)
  case (Tick d)
  then show ?thesis using assms by simp
next
  case (Timer_fires i)
  have "armed (s\<lparr>timers := (timers s)[i := (timers s ! i)\<lparr>status := Fired\<rparr>],
                  threads := threads s @ [Notifying]\<rparr>)
          = filter (\<lambda>k. k \<noteq> i) (armed s)"
    by (simp add: armed_def armed_in_update)
  then show ?thesis using assms Timer_fires by auto
next
  case (Thread_step j)
  then show ?thesis
    using thread_step_after_shutdown [OF assms, of j] by (simp add: armed_def)
next
  case (Tray t)
  then show ?thesis using assms by simp
next
  case (Loop_turn tk)
  then show ?thesis using assms by (simp add: loop_turn_def)
next
  case (Click_apply w raw b)
  then show ?thesis using assms by (simp add: winfo_exists_def)
next
  case (Close_window w)
  then show ?thesis using assms by (simp add: winfo_exists_def)
qed

lemma run_after_shutdown:
  "\<not> running s \<Longrightarrow> \<not> root_window s \<Longrightarrow> Scheduling \<notin> set (threads s) \<Longrightarrow>
   \<not> running (run e evs s) \<and> \<not> root_window (run e evs s)
   \<and> Scheduling \<notin> set (threads (run e evs s))
   \<and> length (timers (run e evs s)) = length (timers s)
   \<and> set (armed (run e evs s)) \<subseteq> set (armed s)"
proof (induction evs arbitrary: s)
  case Nil
  then show ?case by (simp add: run_def)
next
  case (Cons ev evs)
  have r: "run e (ev # evs) s = run e evs (step e ev s)" by (simp add: run_def)
  have st: "\<not> running (step e ev s) \<and> \<not> root_window (step e ev s)
         \<and> Scheduling \<notin> set (threads (step e ev s))
         \<and> length (timers (step e ev s)) = length (timers s)
         \<and> set (armed (step e ev s)) \<subseteq> set (armed s)"
    using step_after_shutdown [OF Cons.prems] .
  then show ?case
    using Cons.IH [of "step e ev s"] by (auto simp: r)
qed

text \<open>
  C3, as the code has it. \<open>cleanup_and_exit\<close> sets \<open>running\<close> to false and cancels the
  timer the global holds, and calling it again changes nothing. The guard is the flag
  alone, tested without a lock, so it stops the threads that test it after the
  shutdown: if at the shutdown no background thread is about to call
  \<open>schedule_notification\<close> (a reschedule thread that has passed its test of
  \<open>running\<close>, or the thread of an apply that has not run yet), then whatever happens afterwards
  (timers still armed firing, callbacks in flight going on, sleeping threads waking,
  tray clicks, turns of the main loop) \<open>running\<close> stays false, every thread that
  reaches a test of \<open>running\<close> ends there, no timer object is created and no timer
  becomes armed.
\<close>

theorem no_timer_after_shutdown:
  assumes "Scheduling \<notin> set (threads s)"
  shows "cleanup_and_exit (cleanup_and_exit s) = cleanup_and_exit s
   \<and> \<not> running (cleanup_and_exit s)
   \<and> (\<forall>i. timer s = Some i \<longrightarrow> i \<notin> set (armed (cleanup_and_exit s)))
   \<and> \<not> running (run e evs (cleanup_and_exit s))
   \<and> length (timers (run e evs (cleanup_and_exit s))) = length (timers s)
   \<and> set (armed (run e evs (cleanup_and_exit s))) \<subseteq> set (armed (cleanup_and_exit s))
   \<and> Scheduling \<notin> set (threads (run e evs (cleanup_and_exit s)))
   \<and> fst (advance Checking (run e evs (cleanup_and_exit s))) = Done
   \<and> fst (advance Rechecking (run e evs (cleanup_and_exit s))) = Done"
proof -
  have q: "\<not> running (cleanup_and_exit s)" "\<not> root_window (cleanup_and_exit s)"
    "Scheduling \<notin> set (threads (cleanup_and_exit s))"
    using assms by (simp_all add: cleanup_and_exit_view)
  have len: "length (timers (cleanup_and_exit s)) = length (timers s)"
    by (simp add: cleanup_and_exit_view split: option.splits)
  have c: "\<forall>i. timer s = Some i \<longrightarrow> i \<notin> set (armed (cleanup_and_exit s))"
    by (simp add: cleanup_and_exit_view)
  note r = run_after_shutdown [OF q, of e evs]
  show ?thesis
    using cleanup_and_exit_idem [of s] q c r len by simp
qed

lemma demo_fired_reached:
  "run demo_env [Tick 3600, Timer_fires 0, Thread_step 0, Thread_step 0] demo_state = demo_fired"
  by (simp add: run_def can_fire_def thread_step_def send_notification_def
        demo_fired_def demo_state_def)

theorem no_timer_after_shutdown_witness:
  "Scheduling \<notin> set (threads demo_fired)
   \<and> threads (cleanup_and_exit demo_fired) = [Sleeping (3600 + 1 / 10)]
   \<and> cleanup_and_exit (cleanup_and_exit demo_fired) = cleanup_and_exit demo_fired
   \<and> \<not> running (run demo_env [Tick 1, Thread_step 0, Thread_step 0] (cleanup_and_exit demo_fired))
   \<and> threads (run demo_env [Tick 1, Thread_step 0, Thread_step 0] (cleanup_and_exit demo_fired)) = [Done]
   \<and> length (timers (run demo_env [Tick 1, Thread_step 0, Thread_step 0] (cleanup_and_exit demo_fired))) = 1
   \<and> armed (run demo_env [Tick 1, Thread_step 0, Thread_step 0] (cleanup_and_exit demo_fired)) = []"
proof -
  have h: "Scheduling \<notin> set (threads demo_fired)"
    by (simp add: demo_fired_def demo_state_def)
  note t = no_timer_after_shutdown [OF h, of demo_env "[Tick 1, Thread_step 0, Thread_step 0]"]
  have a: "armed (cleanup_and_exit demo_fired) = []"
    by (simp add: cleanup_and_exit_view demo_fired_def demo_state_def armed_def armed_in_def cancel_def)
  have s: "threads (cleanup_and_exit demo_fired) = [Sleeping (3600 + 1 / 10)]"
    "clock (cleanup_and_exit demo_fired) = 3600" "\<not> running (cleanup_and_exit demo_fired)"
    by (simp_all add: cleanup_and_exit_view demo_fired_def demo_state_def)
  have "threads (run demo_env [Tick 1, Thread_step 0, Thread_step 0] (cleanup_and_exit demo_fired)) = [Done]"
    using s by (simp add: run_def thread_step_def)
  moreover have "length (timers demo_fired) = 1"
    by (simp add: demo_fired_def demo_state_def)
  ultimately show ?thesis
    using t a s h by simp
qed

lemma late_trace_run:
  "run demo_env late_trace demo_state
     = demo_state
       \<lparr>clock := 3600 + 1 / 10,
        timer := Some 1,
        timers := [\<lparr>due = 3600, status = Fired\<rparr>, \<lparr>due = 7200 + 1 / 10, status = Armed\<rparr>],
        next_run_time := Some (7200 + 1 / 10),
        running := False,
        threads := [Done],
        sent := [0, 3600],
        root_window := False,
        tray_icon := False\<rparr>"
proof -
  let ?a = "run demo_env [Tick (1 / 10), Thread_step 0, Thread_step 0] demo_fired"
  have a: "?a = demo_fired\<lparr>clock := 3600 + 1 / 10, threads := [Scheduling]\<rparr>"
    by (simp add: run_def thread_step_def demo_fired_def demo_state_def)
  let ?b = "run demo_env [Tray Menu_exit, Loop_turn Tk_ok] ?a"
  have b: "?b = ?a\<lparr>running := False, timer := None, root_window := False, tray_icon := False\<rparr>"
    unfolding a
    by (simp add: run_def loop_turn_def dispatch_def cleanup_and_exit_def cancel_def Let_def
          demo_fired_def demo_state_def)
  have split: "run demo_env late_trace demo_state
      = step demo_env (Thread_step 0)
          (run demo_env [Tray Menu_exit, Loop_turn Tk_ok]
            (run demo_env [Tick (1 / 10), Thread_step 0, Thread_step 0]
              (run demo_env [Tick 3600, Timer_fires 0, Thread_step 0, Thread_step 0] demo_state)))"
    by (simp add: run_def late_trace_def)
  show ?thesis
    unfolding split demo_fired_reached b
    unfolding a
    by (simp add: thread_step_def schedule_notification_def Let_def demo_fired_def demo_state_def)
qed

text \<open>
  C3 as stated fails. The reschedule thread wakes and finds \<open>running\<close> true; before it
  calls \<open>schedule_notification\<close> the exit command is processed and
  \<open>cleanup_and_exit\<close> runs; the thread then arms a new timer although \<open>running\<close>
  is false.
\<close>

theorem timer_armed_after_shutdown_counterexample:
  "main demo_env 0 None demo_reg = Inr demo_state
   \<and> running (run demo_env late_trace demo_state) = False
   \<and> timers (run demo_env late_trace demo_state)
       = [\<lparr>due = 3600, status = Fired\<rparr>, \<lparr>due = 7200 + 1 / 10, status = Armed\<rparr>]
   \<and> armed (run demo_env late_trace demo_state) = [1]"
proof -
  have m: "main demo_env 0 None demo_reg = Inr demo_state"
    using main_first_run [of demo_env "''C:/app/icon.ico''" 0 demo_reg]
    by (simp add: demo_state_def demo_env_simps demo_dumps_def)
  have "[0 ..< 2] = [0, 1]" by (simp add: upt_rec)
  then show ?thesis
    using m by (simp add: late_trace_run armed_def armed_in_def)
qed

section \<open>How many timers are armed\<close>

lemma one_timer_cong:
  "timers s' = timers s \<Longrightarrow> timer s' = timer s \<Longrightarrow> threads s' = threads s \<Longrightarrow>
   one_timer s' = one_timer s"
  by (simp add: one_timer_def armed_def busy_def)

lemma one_timer_armed: "one_timer s \<Longrightarrow> length (armed s) \<le> 1"
  by (auto simp: one_timer_def)

lemma one_timer_fire:
  assumes "one_timer s" and "can_fire i s"
  shows "one_timer (s\<lparr>timers := (timers s)[i := (timers s ! i)\<lparr>status := Fired\<rparr>],
                      threads := threads s @ [Notifying]\<rparr>)"
proof -
  have "i \<in> set (armed s)" using assms(2) by (simp add: can_fire_def set_armed)
  then have a: "armed s = [i]" and b: "busy s = 0"
    using assms(1) by (auto simp: one_timer_def)
  have "armed (s\<lparr>timers := (timers s)[i := (timers s ! i)\<lparr>status := Fired\<rparr>],
                  threads := threads s @ [Notifying]\<rparr>) = []"
    using a by (simp add: armed_def armed_in_update)
  then show ?thesis
    using b by (simp add: one_timer_def busy_def)
qed

lemma one_timer_thread_step:
  assumes "one_timer s"
  shows "one_timer (thread_step j s)"
proof (cases "j < length (threads s)")
  case False
  then show ?thesis using assms by (simp add: thread_step_beyond)
next
  case True
  note v = thread_step_view [OF True]
  show ?thesis
  proof (cases "threads s ! j = Done")
    case True
    then have "thread_step j s = s\<lparr>threads := (threads s)[j := Done]\<rparr>"
      by (simp add: thread_step_def \<open>j < length (threads s)\<close>)
    moreover have "(threads s)[j := Done] = threads s"
      using True list_update_id [of "threads s" j] by simp
    ultimately show ?thesis using assms by simp
  next
    case False
    then have "0 < busy s" using busy_positive [OF True] by simp
    then have a: "armed s = []" and b: "busy s = 1"
      using assms by (auto simp: one_timer_def)
    note c = busy_thread_step [OF True]
    show ?thesis
    proof (cases "threads s ! j = Scheduling")
      case True
      then have "armed (thread_step j s) = [length (timers s)]"
        "timer (thread_step j s) = Some (length (timers s))"
        using a schedule_notification_view(2) [of s]
        by (simp_all add: armed_def v schedule_notification_view)
      moreover have "busy (thread_step j s) = 0"
        using c b True by simp
      ultimately show ?thesis by (simp add: one_timer_def)
    next
      case False
      then have "armed (thread_step j s) = []"
        using a advance_timers [OF False, of s] by (simp add: armed_def v)
      moreover have "busy (thread_step j s) \<le> 1"
        using c b \<open>threads s ! j \<noteq> Done\<close> by (simp split: if_splits)
      ultimately show ?thesis by (simp add: one_timer_def)
    qed
  qed
qed

lemma busy_cleanup_and_exit [simp]: "busy (cleanup_and_exit s) = busy s"
  by (simp add: busy_def cleanup_and_exit_view)

lemma one_timer_cleanup: "one_timer s \<Longrightarrow> one_timer (cleanup_and_exit s)"
  by (auto simp: one_timer_def cleanup_and_exit_view split: option.splits)

lemma one_timer_cancel_and_start:
  assumes "one_timer s" and "busy s = 0"
  shows "one_timer (cancel_and_start m s)"
proof -
  have "armed (cancel_and_start m s) = []"
    using assms by (auto simp: one_timer_def cancel_and_start_view split: option.splits)
  moreover have "busy (cancel_and_start m s) = 1"
    using assms(2) by (simp add: busy_def cancel_and_start_view)
  ultimately show ?thesis by (simp add: one_timer_def)
qed

lemma one_timer_apply:
  assumes "one_timer s" and "busy s = 0"
  shows "one_timer (apply_settings_deferred e raw b s)"
proof -
  consider f msg where "apply_settings_deferred e raw b s = s\<lparr>config_file := f, messages := msg\<rparr>"
    | m f r msg where "apply_settings_deferred e raw b s
        = (cancel_and_start m (s\<lparr>config_file := f, reg := r\<rparr>))\<lparr>messages := msg\<rparr>"
    using apply_settings_deferred_shape [of e raw b s] by blast
  then show ?thesis
  proof cases
    case 1
    then show ?thesis using assms(1) one_timer_cong [of "s\<lparr>config_file := f, messages := msg\<rparr>" s] by simp
  next
    case 2
    let ?s1 = "s\<lparr>config_file := f, reg := r\<rparr>"
    have "one_timer ?s1" using assms(1) one_timer_cong [of ?s1 s] by simp
    moreover have "busy ?s1 = 0" using assms(2) by (simp add: busy_def)
    ultimately have "one_timer (cancel_and_start m ?s1)" by (rule one_timer_cancel_and_start)
    then show ?thesis
      using one_timer_cong [of "(cancel_and_start m ?s1)\<lparr>messages := msg\<rparr>" "cancel_and_start m ?s1"] 2
      by simp
  qed
qed

lemma one_timer_loop_turn: "one_timer s \<Longrightarrow> one_timer (loop_turn e tk s)"
proof (cases "running s"; cases "command_queue s")
  fix c rest
  assume s: "one_timer s" and "running s" and q: "command_queue s = c # rest"
  let ?s1 = "s\<lparr>command_queue := rest\<rparr>"
  have 1: "one_timer ?s1" using s one_timer_cong [of ?s1 s] by simp
  then have x: "one_timer (cleanup_and_exit (?s1\<lparr>running := False\<rparr>))"
    using one_timer_cong [of "?s1\<lparr>running := False\<rparr>" ?s1] by (intro one_timer_cleanup) simp
  have o: "one_timer (create_settings_window tk ?s1)"
    using 1 one_timer_cong [of "create_settings_window tk ?s1" ?s1] by (simp add: create_settings_window_view)
  have t: "one_timer (toggle_auto_start e ?s1)"
    using 1 one_timer_cong [of "toggle_auto_start e ?s1" ?s1] by (simp add: toggle_auto_start_view)
  show "one_timer (loop_turn e tk s)"
    using \<open>running s\<close> q 1 x o t by (simp add: loop_turn_def dispatch_def)
qed (simp_all add: loop_turn_def)

lemma one_timer_step:
  assumes "one_timer s" and "is_apply ev \<longrightarrow> busy s = 0"
  shows "one_timer (step e ev s)"
proof (cases ev)
  case (Tick d)
  then show ?thesis using assms(1) one_timer_cong [of "s\<lparr>clock := clock s + d\<rparr>" s] by simp
next
  case (Timer_fires i)
  then show ?thesis using assms(1) one_timer_fire by simp
next
  case (Thread_step j)
  then show ?thesis using assms(1) one_timer_thread_step by simp
next
  case (Tray t)
  then show ?thesis
    using assms(1) one_timer_cong [of "s\<lparr>command_queue := command_queue s @ [tray_command t]\<rparr>" s] by simp
next
  case (Loop_turn tk)
  then show ?thesis using assms(1) one_timer_loop_turn by simp
next
  case (Click_apply w raw b)
  then show ?thesis using assms one_timer_apply by simp
next
  case (Close_window w)
  then show ?thesis using assms(1) one_timer_cong [of "on_closing w s" s] by (simp add: on_closing_def)
qed

lemma one_timer_run:
  "one_timer s \<Longrightarrow> race_free e evs s \<Longrightarrow> one_timer (run e evs s)"
proof (induction evs arbitrary: s)
  case Nil
  then show ?case by (simp add: run_def)
next
  case (Cons ev evs)
  have r: "run e (ev # evs) s = run e evs (step e ev s)" by (simp add: run_def)
  have "one_timer (step e ev s)" using Cons.prems by (intro one_timer_step) simp_all
  then show ?case using Cons.IH [of "step e ev s"] Cons.prems(2) by (simp add: r)
qed

lemma main_one_timer: "main e now file r = Inr s0 \<Longrightarrow> one_timer s0"
  by (auto simp: main_def one_timer_def send_notification_def schedule_notification_def Let_def
        armed_def armed_in_def busy_def split: prod.splits sum.splits option.splits)

text \<open>
  C1, as the code has it. \<open>schedule_notification\<close> cancels nothing: it starts one more
  timer and makes the global \<open>timer\<close> refer to it. The only cancellation before
  re-arming is in the apply handler, which cancels the timer the global refers to and
  then has a thread schedule; nothing serialises the two. So at most one timer is armed
  at every moment, and the global \<open>timer\<close> refers to it, in every execution from
  start-up in which the apply handler never runs while a background thread is
  unfinished, that is, not between the start of a timer's callback and the end of the
  re-arming that follows it, and not before the thread of an earlier apply has armed its
  timer.
\<close>

theorem at_most_one_timer_without_race:
  assumes "main e now file r = Inr s0" and "race_free e evs s0"
  shows "length (armed (run e evs s0)) \<le> 1
         \<and> (\<forall>i. i \<in> set (armed (run e evs s0)) \<longrightarrow> timer (run e evs s0) = Some i)
         \<and> timers (schedule_notification s)
             = timers s @ [\<lparr>due = clock s + interval_sec s, status = Armed\<rparr>]
         \<and> armed (schedule_notification s) = armed s @ [length (timers s)]
         \<and> armed (cancel_and_start m s)
             = (case timer s of None \<Rightarrow> armed s | Some i \<Rightarrow> filter (\<lambda>k. k \<noteq> i) (armed s))"
proof -
  have o: "one_timer (run e evs s0)"
    using one_timer_run [OF main_one_timer [OF assms(1)] assms(2)] .
  then have "\<forall>i. i \<in> set (armed (run e evs s0)) \<longrightarrow> timer (run e evs s0) = Some i"
    by (auto simp: one_timer_def)
  then show ?thesis
    using one_timer_armed [OF o] by (simp add: schedule_notification_view cancel_and_start_view)
qed

lemma apply_demo_one:
  assumes "config_file s = Some ''default''" and "reg s = demo_reg"
  shows "apply_settings_deferred demo_env ''1'' False s
           = (cancel_and_start 1 (s\<lparr>config_file := Some ''one-minute''\<rparr>))
             \<lparr>messages := messages s @ [Info_applied (Finite 1)]\<rparr>"
proof -
  have v: "validate_interval demo_float (dict_get default_config ''interval_min'' (PInt 60)) = Inr (Finite 60)"
    by (simp add: validate_interval_def dict_get_def default_config_def py_max_def py_0_1_def)
  have l: "load_config demo_env (config_file s)
             = (Some ''default'', Inr (dict_set ''interval_min'' (PFloat (Finite 60)) default_config))"
    using v
    by (simp add: load_config_def assms demo_env_simps demo_loads_def Let_def)
       (simp add: dict_set_def dict_get_def default_config_def)
  have d: "dict_set ''auto_start'' (PBool False)
             (dict_set ''interval_min'' (PFloat (Finite 1))
               (dict_set ''interval_min'' (PFloat (Finite 60)) default_config)) = doc_one_minute"
    by (simp add: dict_set_def default_config_def doc_one_minute_def)
  have ne: "doc_one_minute \<noteq> default_config"
    by (simp add: default_config_def doc_one_minute_def)
  have r: "fst (set_auto_start demo_env False (reg s)) = reg s"
    by (simp add: set_auto_start_def assms demo_reg_def)
  have "s\<lparr>config_file := Some ''one-minute'', reg := reg s\<rparr> = s\<lparr>config_file := Some ''one-minute''\<rparr>"
    by simp
  then show ?thesis
    using apply_settings_deferred_ok [OF validate_demo_one l, of False] ne
    by (simp add: demo_env_simps d demo_dumps_def r)
qed

lemma race_trace_run:
  "run demo_env race_trace demo_state
     = demo_state
       \<lparr>clock := 3600 + 1 / 10,
        timer := Some 2,
        timers := [\<lparr>due = 3600, status = Fired\<rparr>, \<lparr>due = 3660, status = Armed\<rparr>,
                   \<lparr>due = 3660 + 1 / 10, status = Armed\<rparr>],
        interval_sec := 60,
        next_run_time := Some (3660 + 1 / 10),
        threads := [Done, Done],
        sent := [0, 3600],
        settings_window := Some 0,
        windows := [True],
        config_file := Some ''one-minute'',
        messages := [Info_applied (Finite 1)]\<rparr>"
proof -
  let ?a = "run demo_env [Tick 3600, Timer_fires 0, Thread_step 0, Thread_step 0] demo_open"
  have a: "?a = demo_open\<lparr>clock := 3600, timers := [\<lparr>due = 3600, status = Fired\<rparr>],
                        threads := [Sleeping (3600 + 1 / 10)], sent := [0, 3600]\<rparr>"
    by (simp add: run_def can_fire_def thread_step_def send_notification_def
          demo_open_def demo_state_def)
  have b: "run demo_env [Click_apply 0 ''1'' False, Thread_step 1] ?a
             = ?a\<lparr>config_file := Some ''one-minute'', interval_sec := 60,
                  timers := [\<lparr>due = 3600, status = Fired\<rparr>, \<lparr>due = 3660, status = Armed\<rparr>],
                  timer := Some 1, next_run_time := Some 3660,
                  threads := [Sleeping (3600 + 1 / 10), Done],
                  messages := [Info_applied (Finite 1)]\<rparr>"
    unfolding a
    by (simp add: run_def winfo_exists_def apply_demo_one demo_open_def demo_state_def)
       (simp add: cancel_and_start_def thread_step_def schedule_notification_def cancel_def Let_def)
  have split: "run demo_env race_trace demo_state
      = run demo_env [Tick (1 / 10), Thread_step 0, Thread_step 0, Thread_step 0]
          (run demo_env [Click_apply 0 ''1'' False, Thread_step 1]
            (run demo_env [Tick 3600, Timer_fires 0, Thread_step 0, Thread_step 0]
              (run demo_env [Tray Menu_open_settings, Loop_turn Tk_ok] demo_state)))"
    by (simp add: run_def race_trace_def)
  show ?thesis
    unfolding split demo_open_reached b
    unfolding a
    by (simp add: run_def thread_step_def schedule_notification_def Let_def
          demo_open_def demo_state_def)
qed

text \<open>
  C1 as stated fails. With the settings window open, the timer fires after an hour and
  its callback starts the reschedule thread, which sleeps; the user applies a one-minute
  interval, which cancels the timer that has already fired and arms a new one; the
  reschedule thread then wakes and \<open>schedule_notification\<close> arms another without
  cancelling: two timers are armed.
\<close>

theorem two_timers_armed_counterexample:
  "main demo_env 0 None demo_reg = Inr demo_state
   \<and> timers (run demo_env race_trace demo_state)
       = [\<lparr>due = 3600, status = Fired\<rparr>, \<lparr>due = 3660, status = Armed\<rparr>,
          \<lparr>due = 3660 + 1 / 10, status = Armed\<rparr>]
   \<and> armed (run demo_env race_trace demo_state) = [1, 2]"
proof -
  have m: "main demo_env 0 None demo_reg = Inr demo_state"
    using main_first_run [of demo_env "''C:/app/icon.ico''" 0 demo_reg]
    by (simp add: demo_state_def demo_env_simps demo_dumps_def)
  have "[0 ..< 3] = [0, 1, 2]" by (simp add: upt_rec)
  then show ?thesis
    using m by (simp add: race_trace_run armed_def armed_in_def)
qed

lemma calm_trace_run:
  "run demo_env calm_trace demo_state
     = demo_state
       \<lparr>clock := 60 + 1 / 10,
        timer := Some 2,
        timers := [\<lparr>due = 3600, status = Cancelled\<rparr>, \<lparr>due = 60, status = Fired\<rparr>,
                   \<lparr>due = 120 + 1 / 10, status = Armed\<rparr>],
        interval_sec := 60,
        next_run_time := Some (120 + 1 / 10),
        threads := [Done, Done],
        sent := [0, 60],
        settings_window := Some 0,
        windows := [True],
        config_file := Some ''one-minute'',
        messages := [Info_applied (Finite 1)]\<rparr>"
proof -
  have b: "run demo_env [Click_apply 0 ''1'' False, Thread_step 0] demo_open
             = demo_open\<lparr>config_file := Some ''one-minute'', interval_sec := 60,
                  timers := [\<lparr>due = 3600, status = Cancelled\<rparr>, \<lparr>due = 60, status = Armed\<rparr>],
                  timer := Some 1, next_run_time := Some 60, threads := [Done],
                  messages := [Info_applied (Finite 1)]\<rparr>"
    by (simp add: run_def winfo_exists_def apply_demo_one demo_open_def demo_state_def)
       (simp add: cancel_and_start_def thread_step_def schedule_notification_def cancel_def Let_def)
  have split: "run demo_env calm_trace demo_state
      = run demo_env [Tick 60, Timer_fires 1, Thread_step 1, Thread_step 1, Tick (1 / 10),
                      Thread_step 1, Thread_step 1, Thread_step 1]
          (run demo_env [Click_apply 0 ''1'' False, Thread_step 0]
            (run demo_env [Tray Menu_open_settings, Loop_turn Tk_ok] demo_state))"
    by (simp add: run_def calm_trace_def)
  show ?thesis
    unfolding split demo_open_reached b
    by (simp add: run_def can_fire_def thread_step_def send_notification_def
          schedule_notification_def Let_def demo_open_def demo_state_def)
qed

lemma calm_trace_race_free: "race_free demo_env calm_trace demo_state"
proof -
  have "step demo_env (Loop_turn Tk_ok) (step demo_env (Tray Menu_open_settings) demo_state) = demo_open"
    using demo_open_reached by (simp add: run_def)
  moreover have "busy demo_open = 0" by (simp add: busy_def demo_open_def demo_state_def)
  ultimately show ?thesis
    by (simp add: calm_trace_def del: step.simps)
qed

theorem at_most_one_timer_without_race_witness:
  "main demo_env 0 None demo_reg = Inr demo_state
   \<and> race_free demo_env calm_trace demo_state
   \<and> armed (run demo_env calm_trace demo_state) = [2]
   \<and> timer (run demo_env calm_trace demo_state) = Some 2
   \<and> length (armed (run demo_env calm_trace demo_state)) \<le> 1"
proof -
  have m: "main demo_env 0 None demo_reg = Inr demo_state"
    using main_first_run [of demo_env "''C:/app/icon.ico''" 0 demo_reg]
    by (simp add: demo_state_def demo_env_simps demo_dumps_def)
  have "[0 ..< 3] = [0, 1, 2]" by (simp add: upt_rec)
  then have a: "armed (run demo_env calm_trace demo_state) = [2]"
    by (simp add: calm_trace_run armed_def armed_in_def)
  have t: "timer (run demo_env calm_trace demo_state) = Some 2"
    by (simp add: calm_trace_run)
  show ?thesis
    using at_most_one_timer_without_race [OF m calm_trace_race_free] m calm_trace_race_free a t
    by simp
qed

end
